theory Spec2Isabelle
  imports Complex_Main "HOL-Library.Word"
begin

unbundle bit_operations_syntax

section \<open>Conventions of the embedding\<close>

text \<open>
  The development embeds the geometry pipeline of the drawing library: vectors and
  affine matrices (\<^verbatim>\<open>matrix.go\<close>), Bezier flattening, dashing and path conversion
  (\<^verbatim>\<open>helper.go\<close>) and the canvas with its path programs and its state stack.

  \<^item> A Go \<^verbatim>\<open>float64\<close> is idealised as a \<^typ>\<open>real\<close>: rounding, infinities and NaN
    are not modelled. \<^verbatim>\<open>math.Sqrt\<close>, \<^verbatim>\<open>math.Hypot\<close>, \<^verbatim>\<open>math.Cos\<close> and
    \<^verbatim>\<open>math.Sin\<close> are the real functions.
  \<^item> \<^verbatim>\<open>fixed.Int26_6\<close> is an \<^verbatim>\<open>int32\<close>, hence a \<^typ>\<open>32 word\<close> whose arithmetic
    wraps; comparisons read it signed. A Go \<^verbatim>\<open>int\<close> is a \<^typ>\<open>64 word\<close>.
  \<^item> A panic (nil dereference, index out of range, explicit \<^verbatim>\<open>panic\<close>) is the left
    injection of a sum type.
\<close>

section \<open>Vectors\<close>

record Vector =
  X :: real
  Y :: real

definition NewVector :: "real \<Rightarrow> real \<Rightarrow> Vector" where
  "NewVector x y = \<lparr>X = x, Y = y\<rparr>"

definition Distance :: "Vector \<Rightarrow> Vector \<Rightarrow> real" where
  "Distance v v2 = (let dx = X v - X v2; dy = Y v - Y v2 in sqrt (dx * dx + dy * dy))"

definition Interpolate :: "Vector \<Rightarrow> Vector \<Rightarrow> real \<Rightarrow> Vector" where
  "Interpolate v v2 t =
     (let x = X v + (X v2 - X v) * t; y = Y v + (Y v2 - Y v) * t in NewVector x y)"

section \<open>Panics\<close>

text \<open>The run-time panics of the Go program, as values.\<close>

datatype error = NilDereference | IndexOutOfRange | Panic string

section \<open>Bezier flattening\<close>

text \<open>\<^verbatim>\<open>math.Hypot\<close> on reals.\<close>

definition Hypot :: "real \<Rightarrow> real \<Rightarrow> real" where
  "Hypot p q = sqrt (p * p + q * q)"

text \<open>
  The Go conversion \<^verbatim>\<open>int(x)\<close> of a \<^verbatim>\<open>float64\<close> drops the fraction (truncation
  toward zero); \<open>float_to_int\<close> is that value as a mathematical integer.
\<close>

definition float_to_int :: "real \<Rightarrow> int" where
  "float_to_int x = (if 0 \<le> x then \<lfloor>x\<rfloor> else \<lceil>x\<rceil>)"

text \<open>
  Two facts of the runtime the program runs on decide what the flatteners do on very long
  curves. The result of \<^verbatim>\<open>int(x)\<close> is a 64-bit \<^verbatim>\<open>int\<close>; when the truncated value is
  not representable in it, Go leaves the result to the implementation
  (\<open>unrepresentable\<close> gives it). And \<^verbatim>\<open>make([]*Vector, n)\<close> panics when \<open>n\<close> is negative
  or larger than the longest slice the runtime allocates (\<open>max_len\<close>); up to that length
  the allocation is taken to succeed.
\<close>

record Runtime =
  unrepresentable :: "real \<Rightarrow> 64 word"
  max_len :: nat

definition float64_to_int :: "Runtime \<Rightarrow> real \<Rightarrow> 64 word" where
  "float64_to_int rt x =
     (if - (2 ^ 63) \<le> float_to_int x \<and> float_to_int x < 2 ^ 63
      then word_of_int (float_to_int x)
      else unrepresentable rt x)"

text \<open>
  The runtime on amd64: the conversion instruction gives the smallest \<^verbatim>\<open>int\<close> for an
  unrepresentable value, and \<^verbatim>\<open>make\<close> refuses more than \<open>2\<^sup>4\<^sup>8\<close> bytes, that is \<open>2\<^sup>4\<^sup>5\<close>
  pointers.
\<close>

definition runtime_amd64 :: Runtime where
  "runtime_amd64 = \<lparr>unrepresentable = (\<lambda>x. - (2 ^ 63)), max_len = 2 ^ 45\<rparr>"

text \<open>
  The flatteners. \<open>n\<close> is the 64-bit count, compared and converted as a signed value;
  the slice of length \<open>n\<close> made by \<^verbatim>\<open>make\<close> and filled by the loop
  \<^verbatim>\<open>for i := 0; i < n; i++\<close> is the image of \<open>[0..<n]\<close>.
\<close>

definition CreateQuadraticBezier ::
  "Runtime \<Rightarrow> real \<Rightarrow> real \<Rightarrow> real \<Rightarrow> real \<Rightarrow> real \<Rightarrow> real \<Rightarrow> error + Vector list" where
  "CreateQuadraticBezier rt x0 y0 x1 y1 x2 y2 =
     (let l = Hypot (x1 - x0) (y1 - y0) + Hypot (x2 - x1) (y2 - y1);
          n = float64_to_int rt (l + 0.5);
          n = (if n <s 4 then 4 else n);
          d = real_of_int (sint n) - 1
      in if sint n < 0 \<or> int (max_len rt) < sint n
         then Inl (Panic ''makeslice: len out of range'')
         else Inr (map (\<lambda>i. let t = real i / d;
                                u = 1 - t;
                                a = u * u;
                                b = 2 * u * t;
                                c = t * t
                            in NewVector (a * x0 + b * x1 + c * x2) (a * y0 + b * y1 + c * y2))
                    [0..<nat (sint n)]))"

definition CreateCubicBezier ::
  "Runtime \<Rightarrow> real \<Rightarrow> real \<Rightarrow> real \<Rightarrow> real \<Rightarrow> real \<Rightarrow> real \<Rightarrow> real \<Rightarrow> real
     \<Rightarrow> error + Vector list" where
  "CreateCubicBezier rt x0 y0 x1 y1 x2 y2 x3 y3 =
     (let l = Hypot (x1 - x0) (y1 - y0) + Hypot (x2 - x1) (y2 - y1) + Hypot (x3 - x2) (y3 - y2);
          n = float64_to_int rt (l + 0.5);
          n = (if n <s 4 then 4 else n);
          d = real_of_int (sint n) - 1
      in if sint n < 0 \<or> int (max_len rt) < sint n
         then Inl (Panic ''makeslice: len out of range'')
         else Inr (map (\<lambda>i. let t = real i / d;
                                u = 1 - t;
                                a = u * u * u;
                                b = 3 * u * u * t;
                                c = 3 * u * t * t;
                                d = t * t * t
                            in NewVector (a * x0 + b * x1 + c * x2 + d * x3)
                                         (a * y0 + b * y1 + c * y2 + d * y3))
                    [0..<nat (sint n)]))"

text \<open>
  The specification's side of the flattening claim: the Bernstein form of a quadratic and
  of a cubic curve through control points, and the point count \<open>round l\<close> with the
  minimum 4, for a control polygon of length \<open>l\<close>.
\<close>

definition quadratic_at :: "Vector \<Rightarrow> Vector \<Rightarrow> Vector \<Rightarrow> real \<Rightarrow> Vector" where
  "quadratic_at p0 p1 p2 t =
     \<lparr>X = (1 - t)\<^sup>2 * X p0 + 2 * (1 - t) * t * X p1 + t\<^sup>2 * X p2,
      Y = (1 - t)\<^sup>2 * Y p0 + 2 * (1 - t) * t * Y p1 + t\<^sup>2 * Y p2\<rparr>"

definition cubic_at :: "Vector \<Rightarrow> Vector \<Rightarrow> Vector \<Rightarrow> Vector \<Rightarrow> real \<Rightarrow> Vector" where
  "cubic_at p0 p1 p2 p3 t =
     \<lparr>X = (1 - t)^3 * X p0 + 3 * (1 - t)\<^sup>2 * t * X p1 + 3 * (1 - t) * t\<^sup>2 * X p2 + t^3 * X p3,
      Y = (1 - t)^3 * Y p0 + 3 * (1 - t)\<^sup>2 * t * Y p1 + 3 * (1 - t) * t\<^sup>2 * Y p2 + t^3 * Y p3\<rparr>"

definition point_count :: "real \<Rightarrow> nat" where
  "point_count l = nat (max 4 (round l))"

section \<open>Affine matrices\<close>

record Matrix =
  XX :: real
  YX :: real
  XY :: real
  YY :: real
  X0 :: real
  Y0 :: real

definition Identity :: Matrix where
  "Identity = \<lparr>XX = 1, YX = 0, XY = 0, YY = 1, X0 = 0, Y0 = 0\<rparr>"

definition Translate :: "real \<Rightarrow> real \<Rightarrow> Matrix" where
  "Translate x y = \<lparr>XX = 1, YX = 0, XY = 0, YY = 1, X0 = x, Y0 = y\<rparr>"

definition Scale :: "real \<Rightarrow> real \<Rightarrow> Matrix" where
  "Scale x y = \<lparr>XX = x, YX = 0, XY = 0, YY = y, X0 = 0, Y0 = 0\<rparr>"

definition Rotate :: "real \<Rightarrow> Matrix" where
  "Rotate angle =
     (let c = cos angle; s = sin angle
      in \<lparr>XX = c, YX = s, XY = - s, YY = c, X0 = 0, Y0 = 0\<rparr>)"

definition Shear :: "real \<Rightarrow> real \<Rightarrow> Matrix" where
  "Shear x y = \<lparr>XX = 1, YX = y, XY = x, YY = 1, X0 = 0, Y0 = 0\<rparr>"

definition Multiply :: "Matrix \<Rightarrow> Matrix \<Rightarrow> Matrix" where
  "Multiply m1 m2 =
     \<lparr>XX = XX m1 * XX m2 + YX m1 * XY m2,
      YX = XX m1 * YX m2 + YX m1 * YY m2,
      XY = XY m1 * XX m2 + YY m1 * XY m2,
      YY = XY m1 * YX m2 + YY m1 * YY m2,
      X0 = X0 m1 * XX m2 + Y0 m1 * XY m2 + X0 m2,
      Y0 = X0 m1 * YX m2 + Y0 m1 * YY m2 + Y0 m2\<rparr>"

definition TransformVector :: "Matrix \<Rightarrow> real \<Rightarrow> real \<Rightarrow> real \<times> real" where
  "TransformVector m x y = (XX m * x + XY m * y, YX m * x + YY m * y)"

definition TransformPoint :: "Matrix \<Rightarrow> real \<Rightarrow> real \<Rightarrow> real \<times> real" where
  "TransformPoint m x y = (XX m * x + XY m * y + X0 m, YX m * x + YY m * y + Y0 m)"

text \<open>The methods \<^verbatim>\<open>Matrix.Translate\<close>, \<^verbatim>\<open>Matrix.Scale\<close>, \<^verbatim>\<open>Matrix.Rotate\<close> and
  \<^verbatim>\<open>Matrix.Shear\<close>; the prefix tells them from the constructors of the same name.\<close>

definition Matrix_Translate :: "Matrix \<Rightarrow> real \<Rightarrow> real \<Rightarrow> Matrix" where
  "Matrix_Translate m x y = Multiply (Translate x y) m"

definition Matrix_Scale :: "Matrix \<Rightarrow> real \<Rightarrow> real \<Rightarrow> Matrix" where
  "Matrix_Scale m x y = Multiply (Scale x y) m"

definition Matrix_Rotate :: "Matrix \<Rightarrow> real \<Rightarrow> Matrix" where
  "Matrix_Rotate m angle = Multiply (Rotate angle) m"

definition Matrix_Shear :: "Matrix \<Rightarrow> real \<Rightarrow> real \<Rightarrow> Matrix" where
  "Matrix_Shear m x y = Multiply (Shear x y) m"

section \<open>Dashing\<close>

text \<open>
  The inner loop of \<^verbatim>\<open>dashPath\<close>, \<^verbatim>\<open>for pathIndex < len(path)\<close>. A cut leaves
  \<open>pathIndex\<close> where it is, so the loop need not end (a pattern of zeros never consumes
  the distance): the model counts iterations down from a fuel and \<open>None\<close> is the loop
  still running when the fuel is spent. The loop state is the previous point, the two
  indices, the length of the current dash, the current segment and the result so far.
  The quotient \<open>maxd / d\<close> has \<open>d = 0\<close> only when \<open>maxd\<close> is negative, which takes a
  negative dash length; there Go divides by zero in floating point and HOL yields 0.
\<close>

fun dashPath_loop ::
  "nat \<Rightarrow> real list \<Rightarrow> Vector list \<Rightarrow> Vector \<Rightarrow> nat \<Rightarrow> nat \<Rightarrow> real \<Rightarrow> Vector list
     \<Rightarrow> Vector list list \<Rightarrow> (nat \<times> Vector list \<times> Vector list list) option" where
  "dashPath_loop 0 dashes path previous pathIndex dashIndex segmentLength segment result = None"
| "dashPath_loop (Suc fuel) dashes path previous pathIndex dashIndex segmentLength segment result =
     (if pathIndex < length path then
        (let dashLength = dashes ! dashIndex;
             point = path ! pathIndex;
             d = Distance previous point;
             maxd = dashLength - segmentLength
         in if d > maxd then
              (let t = maxd / d;
                   p = Interpolate previous point t;
                   segment = segment @ [p];
                   result = (if dashIndex mod 2 = 0 \<and> length segment > 1
                             then result @ [segment] else result)
               in dashPath_loop fuel dashes path p pathIndex
                    ((dashIndex + 1) mod length dashes) 0 [p] result)
            else dashPath_loop fuel dashes path point (pathIndex + 1) dashIndex
                   (segmentLength + d) (segment @ [point]) result)
      else Some (dashIndex, segment, result))"

text \<open>The outer loop \<^verbatim>\<open>for _, path := range paths\<close>, with the result so far.\<close>

fun dashPath_paths ::
  "nat \<Rightarrow> real list \<Rightarrow> Vector list list \<Rightarrow> Vector list list \<Rightarrow> Vector list list option" where
  "dashPath_paths fuel dashes [] result = Some result"
| "dashPath_paths fuel dashes (path # paths) result =
     (if length path < 2 then dashPath_paths fuel dashes paths result
      else
        (case dashPath_loop fuel dashes path (path ! 0) 1 0 0 [path ! 0] result of
           None \<Rightarrow> None
         | Some (dashIndex, segment, result) \<Rightarrow>
             dashPath_paths fuel dashes paths
               (if dashIndex mod 2 = 0 \<and> length segment > 1
                then result @ [segment] else result)))"

definition dashPath :: "nat \<Rightarrow> Vector list list \<Rightarrow> real list \<Rightarrow> Vector list list option" where
  "dashPath fuel paths dashes =
     (if length dashes = 0 then Some paths
      else
        (let dashes = (if length dashes = 1 then dashes @ [dashes ! 0] else dashes)
         in dashPath_paths fuel dashes paths []))"

text \<open>The length of a polyline: the sum of the distances of consecutive points.\<close>

fun polyline_length :: "Vector list \<Rightarrow> real" where
  "polyline_length (p # q # ps) = Distance p q + polyline_length (q # ps)"
| "polyline_length ps = 0"

text \<open>
  The specification's side of the dashing claim: the point at the distance \<open>s\<close> from \<open>p\<close>
  on the straight line from \<open>p\<close> through \<open>q\<close>. A straight polyline from \<open>p\<close> to \<open>q\<close> is
  the image of a nondecreasing list of such distances.
\<close>

definition point_at :: "Vector \<Rightarrow> Vector \<Rightarrow> real \<Rightarrow> Vector" where
  "point_at p q s = Interpolate p q (s / Distance p q)"

section \<open>Fixed-point coordinates and path programs\<close>

text \<open>
  \<^verbatim>\<open>fixed.Int26_6\<close> is an \<^verbatim>\<open>int32\<close> with 6 fractional bits,
  \<^verbatim>\<open>fixed.Point26_6\<close> a pair \<^verbatim>\<open>{X, Y}\<close> of them (a pair here, first component
  \<^verbatim>\<open>X\<close>), and \<^verbatim>\<open>raster.Path\<close> a slice of \<^verbatim>\<open>Int26_6\<close>. These three types and the
  functions \<^verbatim>\<open>fixed.I\<close>, \<^verbatim>\<open>Path.Start\<close>, \<^verbatim>\<open>Path.Add1\<close>, \<^verbatim>\<open>Path.Add2\<close> and
  \<^verbatim>\<open>Path.Clear\<close> belong to the imported packages \<^verbatim>\<open>golang.org/x/image/math/fixed\<close>
  and \<^verbatim>\<open>github.com/golang/freetype/raster\<close>; their layout (a command tag, the
  coordinates, the tag again) is the one \<^verbatim>\<open>flattenPath\<close> decodes.
\<close>

type_synonym Int26_6 = "32 word"
type_synonym Point26_6 = "Int26_6 \<times> Int26_6"
type_synonym Path = "Int26_6 list"


text \<open>
  The conversion \<^verbatim>\<open>int(x)\<close> to the 64-bit \<^verbatim>\<open>int\<close> in \<^verbatim>\<open>Vector.Fixed\<close>: the
  truncated value, reduced to 64 bits. (For a value outside the 64-bit range Go leaves
  the result to the implementation; \<^verbatim>\<open>fixed.I\<close> shifts whatever it gets, so the six
  low bits of a coordinate do not depend on it.)
\<close>

definition go_int :: "real \<Rightarrow> 64 word" where
  "go_int x = word_of_int (float_to_int x)"

text \<open>\<^verbatim>\<open>fixed.I(i) = Int26_6(i << 6)\<close>: shift in 64 bits, keep the low 32.\<close>

definition fixed_I :: "64 word \<Rightarrow> Int26_6" where
  "fixed_I i = ucast (push_bit 6 i)"

definition Fixed :: "Vector \<Rightarrow> Point26_6" where
  "Fixed v = (fixed_I (go_int (X v)), fixed_I (go_int (Y v)))"

definition Start :: "Path \<Rightarrow> Point26_6 \<Rightarrow> Path" where
  "Start p a = p @ [0, fst a, snd a, 0]"

definition Add1 :: "Path \<Rightarrow> Point26_6 \<Rightarrow> Path" where
  "Add1 p b = p @ [1, fst b, snd b, 1]"

definition Add2 :: "Path \<Rightarrow> Point26_6 \<Rightarrow> Point26_6 \<Rightarrow> Path" where
  "Add2 p b c = p @ [2, fst b, snd b, fst c, snd c, 2]"

definition Clear :: "Path \<Rightarrow> Path" where
  "Clear p = []"

subsection \<open>Decoding a path program into polylines\<close>

text \<open>
  \<^verbatim>\<open>flattenPath\<close>. The loop index \<open>i\<close> only grows, so the model walks the rest of the
  slice, \<open>drop i p\<close>. Reading \<^verbatim>\<open>p[i+k]\<close> past the end panics; a command reads its
  coordinates but not its closing tag. \<^verbatim>\<open>Unfix\<close>, the conversion from fixed point to
  \<^verbatim>\<open>float64\<close>, is a function of the package whose source is not at hand: it is a
  parameter.
\<close>

function flattenPath_loop ::
  "Runtime \<Rightarrow> (Int26_6 \<Rightarrow> real) \<Rightarrow> Path \<Rightarrow> Vector list \<Rightarrow> real \<Rightarrow> real \<Rightarrow> Vector list list
     \<Rightarrow> error + Vector list list" where
  "flattenPath_loop rt Unfix p path cx cy result =
     (if length p = 0 then Inr (if length path > 0 then result @ [path] else result)
      else if p ! 0 = 0 then
        (if length p < 3 then Inl IndexOutOfRange
         else
           (let result = (if length path > 0 then result @ [path] else result);
                path = (if length path > 0 then [] else path);
                x = Unfix (p ! 1);
                y = Unfix (p ! 2);
                path = path @ [NewVector x y]
            in flattenPath_loop rt Unfix (drop 4 p) path x y result))
      else if p ! 0 = 1 then
        (if length p < 3 then Inl IndexOutOfRange
         else
           (let x = Unfix (p ! 1);
                y = Unfix (p ! 2);
                path = path @ [NewVector x y]
            in flattenPath_loop rt Unfix (drop 4 p) path x y result))
      else if p ! 0 = 2 then
        (if length p < 5 then Inl IndexOutOfRange
         else
           (let x1 = Unfix (p ! 1);
                y1 = Unfix (p ! 2);
                x2 = Unfix (p ! 3);
                y2 = Unfix (p ! 4)
            in case CreateQuadraticBezier rt cx cy x1 y1 x2 y2 of
                 Inl e \<Rightarrow> Inl e
               | Inr points \<Rightarrow>
                   (let path = path @ points
                    in flattenPath_loop rt Unfix (drop 6 p) path x2 y2 result)))
      else if p ! 0 = 3 then
        (if length p < 7 then Inl IndexOutOfRange
         else
           (let x1 = Unfix (p ! 1);
                y1 = Unfix (p ! 2);
                x2 = Unfix (p ! 3);
                y2 = Unfix (p ! 4);
                x3 = Unfix (p ! 5);
                y3 = Unfix (p ! 6)
            in case CreateCubicBezier rt cx cy x1 y1 x2 y2 x3 y3 of
                 Inl e \<Rightarrow> Inl e
               | Inr points \<Rightarrow>
                   (let path = path @ points
                    in flattenPath_loop rt Unfix (drop 8 p) path x3 y3 result)))
      else Inl (Panic ''bad path''))"
  by pat_completeness auto
termination
  by (relation "measure (\<lambda>(rt, Unfix, p, path, cx, cy, result). length p)") auto

declare flattenPath_loop.simps [simp del]

definition flattenPath ::
  "Runtime \<Rightarrow> (Int26_6 \<Rightarrow> real) \<Rightarrow> Path \<Rightarrow> error + Vector list list" where
  "flattenPath rt Unfix p = flattenPath_loop rt Unfix p [] 0 0 []"

subsection \<open>Encoding polylines as a path program\<close>

text \<open>
  \<^verbatim>\<open>rasterPath\<close>: the inner loop over the points of one polyline, with the index \<open>i\<close>,
  the previous fixed point and the result so far. The differences, their negation and
  their sum are \<^verbatim>\<open>int32\<close> operations and wrap; the tests are signed.
\<close>

fun rasterPath_loop :: "Vector list \<Rightarrow> nat \<Rightarrow> Point26_6 \<Rightarrow> Path \<Rightarrow> Path" where
  "rasterPath_loop [] i previous result = result"
| "rasterPath_loop (point # path) i previous result =
     (let f = Fixed point;
          result =
            (if i = 0 then Start result f
             else
               (let dx = fst f - fst previous;
                    dy = snd f - snd previous;
                    dx = (if dx <s 0 then - dx else dx);
                    dy = (if dy <s 0 then - dy else dy)
                in if 8 <s dx + dy then Add1 result f else result))
      in rasterPath_loop path (i + 1) f result)"

fun rasterPath_paths :: "Vector list list \<Rightarrow> Path \<Rightarrow> Path" where
  "rasterPath_paths [] result = result"
| "rasterPath_paths (path # paths) result =
     rasterPath_paths paths (rasterPath_loop path 0 (0, 0) result)"

definition rasterPath :: "Vector list list \<Rightarrow> Path" where
  "rasterPath paths = rasterPath_paths paths []"

section \<open>The canvas\<close>

text \<open>
  The typed constants of \<^verbatim>\<open>LineCap\<close>, \<^verbatim>\<open>LineJoin\<close> and \<^verbatim>\<open>FillRule\<close> share one
  \<^verbatim>\<open>const\<close> block, so \<^verbatim>\<open>iota\<close> keeps counting through it: the line joins are 3 and
  4 and the fill rules 5 and 6. The three types are integers and a setter accepts any
  value of them.
\<close>

type_synonym LineCap = int
type_synonym LineJoin = int
type_synonym FillRule = int

definition LineCapRound :: LineCap where "LineCapRound = 0"
definition LineCapButt :: LineCap where "LineCapButt = 1"
definition LineCapSquare :: LineCap where "LineCapSquare = 2"
definition LineJoinRound :: LineJoin where "LineJoinRound = 3"
definition LineJoinBevel :: LineJoin where "LineJoinBevel = 4"
definition FillRuleWinding :: FillRule where "FillRuleWinding = 5"
definition FillRuleEvenOdd :: FillRule where "FillRuleEvenOdd = 6"

text \<open>
  Images (\<^verbatim>\<open>image.RGBA\<close>, \<^verbatim>\<open>image.Alpha\<close>) with their bounds; \<^verbatim>\<open>image.Point\<close> is a
  pair of \<^verbatim>\<open>int\<close>, \<^verbatim>\<open>Rectangle.Size\<close> the difference of the corners. Colours and
  patterns are interface values: the constructors name the implementations in use, and
  \<open>otherPattern\<close> stands for any pattern that is not a \<^verbatim>\<open>*solidPattern\<close>.
\<close>

type_synonym Point = "64 word \<times> 64 word"

record Rectangle =
  Min_pt :: Point
  Max_pt :: Point

definition Size :: "Rectangle \<Rightarrow> Point" where
  "Size r = (fst (Max_pt r) - fst (Min_pt r), snd (Max_pt r) - snd (Min_pt r))"

record Image_RGBA =
  RGBA_Pix :: "8 word list"
  RGBA_Rect :: Rectangle

record Image_Alpha =
  Pix :: "8 word list"
  Rect :: Rectangle

datatype Color =
  Color_Gray16 "16 word"
  | Color_Alpha16 "16 word"
  | Color_RGBA "8 word" "8 word" "8 word" "8 word"
  | Color_NRGBA "8 word" "8 word" "8 word" "8 word"

datatype Pattern = solidPattern Color | otherPattern nat

text \<open>
  The struct \<^verbatim>\<open>Canvas\<close>. Pointers to canvases are addresses (the stack holds
  \<^verbatim>\<open>*Canvas\<close>), and so are the rasterizer and the font face, whose objects live outside
  the struct. \<^verbatim>\<open>start\<close> and \<^verbatim>\<open>current\<close> are \<^verbatim>\<open>*Vector\<close> and \<^verbatim>\<open>mask\<close> is
  \<^verbatim>\<open>*image.Alpha\<close>: \<open>None\<close> is \<^verbatim>\<open>nil\<close>. The matrix pointer is set by the constructor
  and by every operation that assigns it, and a matrix is never updated in place; the
  field holds its value. The field \<^verbatim>\<open>mask\<close> is \<open>mask_alpha\<close> here.
\<close>

record Canvas =
  stack :: "nat list"
  width :: "64 word"
  height :: "64 word"
  rasterizer :: nat
  im :: Image_RGBA
  mask_alpha :: "Image_Alpha option"
  color :: Color
  clearSrc :: Color
  fillPattern :: Pattern
  strokePattern :: Pattern
  strokePath :: Path
  fillPath :: Path
  start :: "Vector option"
  current :: "Vector option"
  hasCurrent :: bool
  hasBegin :: bool
  dashes :: "real list"
  vertexts :: "Vector list"
  lineWidth :: real
  lineCap :: LineCap
  lineJoin :: LineJoin
  fillRule :: FillRule
  fontFace :: nat
  fontHeight :: real
  matrix :: Matrix

definition defaultFillStyle :: Pattern where
  "defaultFillStyle = solidPattern (Color_Gray16 65535)"

definition defaultStrokeStyle :: Pattern where
  "defaultStrokeStyle = solidPattern (Color_Gray16 0)"

text \<open>
  \<^verbatim>\<open>NewCanvasForRGBA\<close>. The address of the rasterizer that \<^verbatim>\<open>raster.NewRasterizer\<close>
  allocates and the address of the font face \<^verbatim>\<open>basicfont.Face7x13\<close> are arguments.
  Fields the composite literal leaves out hold their zero values.
\<close>

definition NewCanvasForRGBA :: "Image_RGBA \<Rightarrow> nat \<Rightarrow> nat \<Rightarrow> Canvas" where
  "NewCanvasForRGBA i r face =
     (let w = fst (Size (RGBA_Rect i));
          h = snd (Size (RGBA_Rect i))
      in \<lparr>stack = [], width = w, height = h, rasterizer = r, im = i, mask_alpha = None,
          color = Color_Alpha16 0, clearSrc = Color_Gray16 65535,
          fillPattern = defaultFillStyle, strokePattern = defaultStrokeStyle,
          strokePath = [], fillPath = [], start = None, current = None,
          hasCurrent = False, hasBegin = False, dashes = [], vertexts = [],
          lineWidth = 1, lineCap = 0, lineJoin = 0, fillRule = FillRuleWinding,
          fontFace = face, fontHeight = 13, matrix = Identity\<rparr>)"

subsection \<open>Style, transform and clip setters\<close>

definition SetDash :: "Canvas \<Rightarrow> real list \<Rightarrow> Canvas" where
  "SetDash c ds = c\<lparr>dashes := ds\<rparr>"

definition SetLineWidth :: "Canvas \<Rightarrow> real \<Rightarrow> Canvas" where
  "SetLineWidth c w = c\<lparr>lineWidth := w\<rparr>"

definition SetLineCap :: "Canvas \<Rightarrow> LineCap \<Rightarrow> Canvas" where
  "SetLineCap c cap = c\<lparr>lineCap := cap\<rparr>"

definition SetLineJoin :: "Canvas \<Rightarrow> LineJoin \<Rightarrow> Canvas" where
  "SetLineJoin c j = c\<lparr>lineJoin := j\<rparr>"

definition SetFillRule :: "Canvas \<Rightarrow> FillRule \<Rightarrow> Canvas" where
  "SetFillRule c fr = c\<lparr>fillRule := fr\<rparr>"

definition setFillAndStrokeColor :: "Canvas \<Rightarrow> Color \<Rightarrow> Canvas" where
  "setFillAndStrokeColor c col =
     c\<lparr>color := col, fillPattern := solidPattern col, strokePattern := solidPattern col\<rparr>"

definition SetColor :: "Canvas \<Rightarrow> Color \<Rightarrow> Canvas" where
  "SetColor c col = setFillAndStrokeColor c col"

definition Canvas_Identity :: "Canvas \<Rightarrow> Canvas" where
  "Canvas_Identity c = c\<lparr>matrix := Identity\<rparr>"

definition Canvas_Translate :: "Canvas \<Rightarrow> real \<Rightarrow> real \<Rightarrow> Canvas" where
  "Canvas_Translate c x y = c\<lparr>matrix := Matrix_Translate (matrix c) x y\<rparr>"

definition Canvas_Scale :: "Canvas \<Rightarrow> real \<Rightarrow> real \<Rightarrow> Canvas" where
  "Canvas_Scale c x y = c\<lparr>matrix := Matrix_Scale (matrix c) x y\<rparr>"

definition Canvas_Rotate :: "Canvas \<Rightarrow> real \<Rightarrow> Canvas" where
  "Canvas_Rotate c angle = c\<lparr>matrix := Matrix_Rotate (matrix c) angle\<rparr>"

definition Canvas_Shear :: "Canvas \<Rightarrow> real \<Rightarrow> real \<Rightarrow> Canvas" where
  "Canvas_Shear c x y = c\<lparr>matrix := Matrix_Shear (matrix c) x y\<rparr>"

definition Canvas_TransformPoint :: "Canvas \<Rightarrow> real \<Rightarrow> real \<Rightarrow> real \<times> real" where
  "Canvas_TransformPoint c x y = TransformPoint (matrix c) x y"

definition ResetClip :: "Canvas \<Rightarrow> Canvas" where
  "ResetClip c = c\<lparr>mask_alpha := None\<rparr>"

text \<open>
  \<^verbatim>\<open>SetMask\<close> returns an \<^verbatim>\<open>error\<close> value: \<open>None\<close> is \<^verbatim>\<open>nil\<close>, \<open>Some s\<close> the error
  made by \<^verbatim>\<open>errors.New(s)\<close>. The canvas comes back with it, since the method works on
  the receiver. A \<^verbatim>\<open>nil\<close> mask panics in \<^verbatim>\<open>mask.Bounds()\<close>.
\<close>

definition SetMask :: "Canvas \<Rightarrow> Image_Alpha option \<Rightarrow> error + (Canvas \<times> string option)" where
  "SetMask c m =
     (case m of
        None \<Rightarrow> Inl NilDereference
      | Some a \<Rightarrow>
          (if Size (Rect a) \<noteq> Size (RGBA_Rect (im c))
           then Inr (c, Some ''mask size must match context size'')
           else Inr (c\<lparr>mask_alpha := m\<rparr>, None)))"

subsection \<open>Path building\<close>

text \<open>
  The path operations work on the receiver and return it; here they return the updated
  canvas, or the panic of a \<^verbatim>\<open>nil\<close> \<^verbatim>\<open>start\<close> or \<^verbatim>\<open>current\<close> pointer.
\<close>

definition MoveTo :: "Canvas \<Rightarrow> real \<Rightarrow> real \<Rightarrow> error + Canvas" where
  "MoveTo c x y =
     (case (if hasCurrent c
            then (case start c of
                    None \<Rightarrow> Inl NilDereference
                  | Some s \<Rightarrow> Inr (c\<lparr>fillPath := Add1 (fillPath c) (Fixed s)\<rparr>))
            else Inr c) of
        Inl e \<Rightarrow> Inl e
      | Inr c \<Rightarrow>
          (let (x, y) = Canvas_TransformPoint c x y;
               v = NewVector x y
           in Inr (c\<lparr>strokePath := Start (strokePath c) (Fixed v),
                      fillPath := Start (fillPath c) (Fixed v),
                      start := Some v,
                      current := Some v,
                      hasCurrent := True\<rparr>)))"

definition LineTo :: "Canvas \<Rightarrow> real \<Rightarrow> real \<Rightarrow> error + Canvas" where
  "LineTo c x y =
     (if \<not> hasCurrent c then MoveTo c x y
      else
        (let (x, y) = Canvas_TransformPoint c x y;
             p = NewVector x y
         in Inr (c\<lparr>strokePath := Add1 (strokePath c) (Fixed p),
                    fillPath := Add1 (fillPath c) (Fixed p),
                    current := Some p\<rparr>)))"

definition QuadraticTo :: "Canvas \<Rightarrow> real \<Rightarrow> real \<Rightarrow> real \<Rightarrow> real \<Rightarrow> error + Canvas" where
  "QuadraticTo c x1 y1 x2 y2 =
     (case (if \<not> hasCurrent c then MoveTo c x1 y1 else Inr c) of
        Inl e \<Rightarrow> Inl e
      | Inr c \<Rightarrow>
          (let (x1, y1) = Canvas_TransformPoint c x1 y1;
               (x2, y2) = Canvas_TransformPoint c x2 y2;
               v1 = NewVector x1 y1;
               v2 = NewVector x2 y2
           in Inr (c\<lparr>strokePath := Add2 (strokePath c) (Fixed v1) (Fixed v2),
                      fillPath := Add2 (fillPath c) (Fixed v1) (Fixed v2),
                      current := Some v2\<rparr>)))"

text \<open>The loop of \<^verbatim>\<open>CubicTo\<close> over \<^verbatim>\<open>points[1:]\<close>, with the previous fixed point.\<close>

fun CubicTo_loop :: "Vector list \<Rightarrow> Point26_6 \<Rightarrow> Canvas \<Rightarrow> Canvas" where
  "CubicTo_loop [] previous c = c"
| "CubicTo_loop (p # points) previous c =
     (let f = Fixed p
      in if f = previous then CubicTo_loop points previous c
         else CubicTo_loop points f
                (c\<lparr>strokePath := Add1 (strokePath c) f,
                   fillPath := Add1 (fillPath c) f,
                   current := Some p\<rparr>))"

definition CubicTo ::
  "Runtime \<Rightarrow> Canvas \<Rightarrow> real \<Rightarrow> real \<Rightarrow> real \<Rightarrow> real \<Rightarrow> real \<Rightarrow> real \<Rightarrow> error + Canvas" where
  "CubicTo rt c x1 y1 x2 y2 x3 y3 =
     (case (if \<not> hasCurrent c then MoveTo c x1 y1 else Inr c) of
        Inl e \<Rightarrow> Inl e
      | Inr c \<Rightarrow>
          (case current c of
             None \<Rightarrow> Inl NilDereference
           | Some cur \<Rightarrow>
               (let x0 = X cur;
                    y0 = Y cur;
                    (x1, y1) = Canvas_TransformPoint c x1 y1;
                    (x2, y2) = Canvas_TransformPoint c x2 y2;
                    (x3, y3) = Canvas_TransformPoint c x3 y3
                in case CreateCubicBezier rt x0 y0 x1 y1 x2 y2 x3 y3 of
                     Inl e \<Rightarrow> Inl e
                   | Inr points \<Rightarrow>
                       (let previous = Fixed cur
                        in Inr (CubicTo_loop (drop 1 points) previous c)))))"

definition ClosePath :: "Canvas \<Rightarrow> error + Canvas" where
  "ClosePath c =
     (if hasCurrent c
      then (case start c of
              None \<Rightarrow> Inl NilDereference
            | Some s \<Rightarrow>
                Inr (c\<lparr>strokePath := Add1 (strokePath c) (Fixed s),
                       fillPath := Add1 (fillPath c) (Fixed s),
                       current := start c\<rparr>))
      else Inr c)"

definition ClearPath :: "Canvas \<Rightarrow> Canvas" where
  "ClearPath c = c\<lparr>strokePath := Clear (strokePath c),
                    fillPath := Clear (fillPath c),
                    hasCurrent := False\<rparr>"

definition NewSubPath :: "Canvas \<Rightarrow> error + Canvas" where
  "NewSubPath c =
     (case (if hasCurrent c
            then (case start c of
                    None \<Rightarrow> Inl NilDereference
                  | Some s \<Rightarrow> Inr (c\<lparr>fillPath := Add1 (fillPath c) (Fixed s)\<rparr>))
            else Inr c) of
        Inl e \<Rightarrow> Inl e
      | Inr c \<Rightarrow> Inr (c\<lparr>hasCurrent := False\<rparr>))"

subsection \<open>The state stack\<close>

text \<open>
  \<^verbatim>\<open>Push\<close> and \<^verbatim>\<open>Pop\<close> work on \<^verbatim>\<open>*Canvas\<close>, and the stack holds such pointers, so
  the two are modelled on a store of canvases: \<open>h a\<close> is the canvas at the address \<open>a\<close>,
  and \<open>None\<close> where there is none (a \<^verbatim>\<open>nil\<close> pointer). \<^verbatim>\<open>Push\<close> appends the receiver
  \<open>c\<close> itself, the pointer, to the stack of the canvas it points to.
\<close>

type_synonym store = "nat \<Rightarrow> Canvas option"

definition Push :: "store \<Rightarrow> nat \<Rightarrow> error + store" where
  "Push h c =
     (case h c of
        None \<Rightarrow> Inl NilDereference
      | Some cv \<Rightarrow> Inr (h(c \<mapsto> cv\<lparr>stack := stack cv @ [c]\<rparr>)))"

text \<open>
  \<^verbatim>\<open>Pop\<close>: \<open>before\<close> is the copy \<^verbatim>\<open>*c\<close>; \<^verbatim>\<open>s[len(s)-1]\<close> panics on the empty
  stack; \<^verbatim>\<open>*c = *x\<close> copies every field of the canvas at \<open>x\<close>, its stack too (the
  shortened local slice \<open>s\<close> is not stored); six fields are then set back from \<open>before\<close>.
\<close>

definition Pop :: "store \<Rightarrow> nat \<Rightarrow> error + store" where
  "Pop h c =
     (case h c of
        None \<Rightarrow> Inl NilDereference
      | Some before \<Rightarrow>
          (let s = stack before
           in if length s = 0 then Inl IndexOutOfRange
              else
                (let x = s ! (length s - 1)
                 in case h x of
                      None \<Rightarrow> Inl NilDereference
                    | Some xv \<Rightarrow>
                        Inr (h(c \<mapsto> xv\<lparr>mask_alpha := mask_alpha before,
                                       strokePath := strokePath before,
                                       fillPath := fillPath before,
                                       start := start before,
                                       current := current before,
                                       hasCurrent := hasCurrent before\<rparr>)))))"

text \<open>A method that returns the updated canvas, applied to the canvas at an address.\<close>

definition at_address :: "(Canvas \<Rightarrow> Canvas) \<Rightarrow> store \<Rightarrow> nat \<Rightarrow> error + store" where
  "at_address f h c =
     (case h c of
        None \<Rightarrow> Inl NilDereference
      | Some cv \<Rightarrow> Inr (h(c \<mapsto> f cv)))"

definition at_address_err :: "(Canvas \<Rightarrow> error + Canvas) \<Rightarrow> store \<Rightarrow> nat \<Rightarrow> error + store" where
  "at_address_err f h c =
     (case h c of
        None \<Rightarrow> Inl NilDereference
      | Some cv \<Rightarrow> (case f cv of Inl e \<Rightarrow> Inl e | Inr cv' \<Rightarrow> Inr (h(c \<mapsto> cv'))))"

text \<open>Sequencing of steps that may panic.\<close>

definition and_then :: "error + 'a \<Rightarrow> ('a \<Rightarrow> error + 'b) \<Rightarrow> error + 'b" where
  "and_then r f = (case r of Inl e \<Rightarrow> Inl e | Inr v \<Rightarrow> f v)"

subsection \<open>A concrete canvas\<close>

text \<open>
  A 2 by 2 image, the canvas \<^verbatim>\<open>NewCanvasForRGBA\<close> makes for it, and a store that holds
  this canvas at the address 0. The concrete cases below start from them.
\<close>

definition image_2x2 :: Image_RGBA where
  "image_2x2 = \<lparr>RGBA_Pix = replicate 16 0, RGBA_Rect = \<lparr>Min_pt = (0, 0), Max_pt = (2, 2)\<rparr>\<rparr>"

definition canvas_2x2 :: Canvas where
  "canvas_2x2 = NewCanvasForRGBA image_2x2 0 0"

definition store_2x2 :: store where
  "store_2x2 = Map.empty(0 \<mapsto> canvas_2x2)"

text \<open>\<^verbatim>\<open>c.Push(); c.SetLineWidth(5).Translate(10, 0); c.Pop()\<close> on that canvas.\<close>

definition push_style_pop :: "error + store" where
  "push_style_pop =
     and_then (Push store_2x2 0) (\<lambda>h.
     and_then (at_address (\<lambda>c. Canvas_Translate (SetLineWidth c 5) 10 0) h 0) (\<lambda>h.
     Pop h 0))"

text \<open>The canvas at the address 0 after \<^verbatim>\<open>c.Push(); c.MoveTo(1, 2)\<close>.\<close>

definition canvas_pushed_moved :: Canvas where
  "canvas_pushed_moved =
     canvas_2x2\<lparr>stack := [0],
                 strokePath := [0, 64, 128, 0],
                 fillPath := [0, 64, 128, 0],
                 start := Some (NewVector 1 2),
                 current := Some (NewVector 1 2),
                 hasCurrent := True\<rparr>"

text \<open>\<^verbatim>\<open>c.Push(); c.MoveTo(1, 2); c.Pop()\<close> on that canvas.\<close>

definition push_moveto_pop :: "error + store" where
  "push_moveto_pop =
     and_then (Push store_2x2 0) (\<lambda>h.
     and_then (at_address_err (\<lambda>c. MoveTo c 1 2) h 0) (\<lambda>h.
     Pop h 0))"

subsection \<open>The whole-pixel grid\<close>

text \<open>
  A fixed-point coordinate lies on the whole-pixel grid when its six fraction bits are
  zero. \<open>grid_path\<close> reads a path program command by command, as \<^verbatim>\<open>Start\<close>,
  \<^verbatim>\<open>Add1\<close> and \<^verbatim>\<open>Add2\<close> write it, and asks that of every coordinate.
\<close>

definition on_grid :: "Int26_6 \<Rightarrow> bool" where
  "on_grid w = (take_bit 6 w = 0)"

function grid_path :: "Path \<Rightarrow> bool" where
  "grid_path p =
     (if length p = 0 then True
      else if p ! 0 = 0 \<or> p ! 0 = 1 then
        4 \<le> length p \<and> on_grid (p ! 1) \<and> on_grid (p ! 2) \<and> p ! 3 = p ! 0
        \<and> grid_path (drop 4 p)
      else if p ! 0 = 2 then
        6 \<le> length p \<and> on_grid (p ! 1) \<and> on_grid (p ! 2) \<and> on_grid (p ! 3)
        \<and> on_grid (p ! 4) \<and> p ! 5 = 2 \<and> grid_path (drop 6 p)
      else False)"
  by pat_completeness auto
termination
  by (relation "measure length") auto

declare grid_path.simps [simp del]

text \<open>
  Both path programs of a canvas on the grid; and the cursor of a canvas: once there is a
  current point, \<^verbatim>\<open>start\<close> and \<^verbatim>\<open>current\<close> are not \<^verbatim>\<open>nil\<close>.
\<close>

definition grid_canvas :: "Canvas \<Rightarrow> bool" where
  "grid_canvas c = (grid_path (fillPath c) \<and> grid_path (strokePath c))"

definition cursor_ok :: "Canvas \<Rightarrow> bool" where
  "cursor_ok c = (if hasCurrent c then start c \<noteq> None \<and> current c \<noteq> None else True)"

subsection \<open>Stroke and fill\<close>

text \<open>
  The rasterizer is the object \<^verbatim>\<open>raster.Rasterizer\<close> of the imported package
  \<^verbatim>\<open>freetype/raster\<close>, which the canvas holds by pointer. Of its state the model keeps
  the public flag \<^verbatim>\<open>UseNonZeroWinding\<close>, what was added since the last \<^verbatim>\<open>Clear\<close>,
  and a record of every call of \<^verbatim>\<open>Rasterize\<close>: the flag and the added input it ran
  with, and the painter it was given. The pixels a painter writes are not modelled.
\<close>

datatype Capper = RoundCapper | ButtCapper | SquareCapper

datatype Joiner = RoundJoiner | BevelJoiner

datatype Painter =
  RGBAPainter Color
  | patternPainter "Image_Alpha option" Pattern
  | AlphaOverPainter

datatype raster_input =
  AddedPath Path
  | AddedStroke Path Int26_6 "Capper option" "Joiner option"

record Rasterizer =
  UseNonZeroWinding :: bool
  added :: "raster_input list"
  rasterized :: "(bool \<times> raster_input list \<times> Painter) list"

definition Rasterizer_Clear :: "Rasterizer \<Rightarrow> Rasterizer" where
  "Rasterizer_Clear r = r\<lparr>added := []\<rparr>"

definition AddPath :: "Rasterizer \<Rightarrow> Path \<Rightarrow> Rasterizer" where
  "AddPath r p = r\<lparr>added := added r @ [AddedPath p]\<rparr>"

definition AddStroke ::
  "Rasterizer \<Rightarrow> Path \<Rightarrow> Int26_6 \<Rightarrow> Capper option \<Rightarrow> Joiner option \<Rightarrow> Rasterizer" where
  "AddStroke r p w cr jr = r\<lparr>added := added r @ [AddedStroke p w cr jr]\<rparr>"

definition Rasterize :: "Rasterizer \<Rightarrow> Painter \<Rightarrow> Rasterizer" where
  "Rasterize r painter =
     r\<lparr>rasterized := rasterized r @ [(UseNonZeroWinding r, added r, painter)]\<rparr>"

text \<open>\<^verbatim>\<open>capper\<close> and \<^verbatim>\<open>joiner\<close>: a \<^verbatim>\<open>switch\<close> with \<^verbatim>\<open>nil\<close> after it.\<close>

definition capper :: "Canvas \<Rightarrow> Capper option" where
  "capper c =
     (if lineCap c = LineCapButt then Some ButtCapper
      else if lineCap c = LineCapRound then Some RoundCapper
      else if lineCap c = LineCapSquare then Some SquareCapper
      else None)"

definition joiner :: "Canvas \<Rightarrow> Joiner option" where
  "joiner c =
     (if lineJoin c = LineJoinBevel then Some BevelJoiner
      else if lineJoin c = LineJoinRound then Some RoundJoiner
      else None)"

text \<open>
  \<^verbatim>\<open>stroke\<close> and \<^verbatim>\<open>fill\<close> leave the fields of the canvas alone and work on its
  rasterizer, which is an argument and the result here. \<^verbatim>\<open>stroke\<close> prepares the path
  first: decoding may panic (a curve too long to allocate among the causes), and dashing
  runs on the fuel (\<open>None\<close>: still dashing).
  \<^verbatim>\<open>Fix\<close>, like \<^verbatim>\<open>Unfix\<close>, is a function of the package whose source is not at hand,
  and a parameter.
\<close>

definition stroke ::
  "nat \<Rightarrow> Runtime \<Rightarrow> (Int26_6 \<Rightarrow> real) \<Rightarrow> (real \<Rightarrow> Int26_6) \<Rightarrow> Canvas \<Rightarrow> Rasterizer \<Rightarrow> Painter
     \<Rightarrow> (error + Rasterizer) option" where
  "stroke fuel rt Unfix Fix c r painter =
     (let path = strokePath c;
          prepared =
            (if length (dashes c) > 0
             then (case flattenPath rt Unfix path of
                     Inl e \<Rightarrow> Some (Inl e)
                   | Inr polylines \<Rightarrow>
                       (case dashPath fuel polylines (dashes c) of
                          None \<Rightarrow> None
                        | Some dashed \<Rightarrow> Some (Inr (rasterPath dashed))))
             else (case flattenPath rt Unfix path of
                     Inl e \<Rightarrow> Some (Inl e)
                   | Inr polylines \<Rightarrow> Some (Inr (rasterPath polylines))))
      in case prepared of
           None \<Rightarrow> None
         | Some (Inl e) \<Rightarrow> Some (Inl e)
         | Some (Inr path) \<Rightarrow>
             (let r = r\<lparr>UseNonZeroWinding := True\<rparr>;
                  r = Rasterizer_Clear r;
                  r = AddStroke r path (Fix (lineWidth c)) (capper c) (joiner c);
                  r = Rasterize r painter
              in Some (Inr r)))"

definition fill :: "Canvas \<Rightarrow> Rasterizer \<Rightarrow> Painter \<Rightarrow> error + Rasterizer" where
  "fill c r painter =
     (case (if hasCurrent c
            then (case start c of
                    None \<Rightarrow> Inl NilDereference
                  | Some s \<Rightarrow> Inr (Add1 (fillPath c) (Fixed s)))
            else Inr (fillPath c)) of
        Inl e \<Rightarrow> Inl e
      | Inr path \<Rightarrow>
          (let r = r\<lparr>UseNonZeroWinding := (fillRule c = FillRuleWinding)\<rparr>;
               r = Rasterizer_Clear r;
               r = AddPath r path;
               r = Rasterize r painter
           in Inr r))"

text \<open>
  Fixed points near the origin: both coordinates within \<open>2\<^sup>2\<^sup>9\<close> fixed-point units, that
  is \<open>2\<^sup>2\<^sup>3\<close> pixels, so that the sum of two coordinate differences stays inside
  \<^verbatim>\<open>int32\<close>.
\<close>

definition near_origin :: "Point26_6 \<Rightarrow> bool" where
  "near_origin p =
     (- (2 ^ 29) \<le> sint (fst p) \<and> sint (fst p) < 2 ^ 29
      \<and> - (2 ^ 29) \<le> sint (snd p) \<and> sint (snd p) < 2 ^ 29)"

text \<open>
  The canvas after \<^verbatim>\<open>c.MoveTo(0, 0); c.LineTo(16, 0); c.SetDash(5, 3);
  c.SetFillRuleEvenOdd()\<close> on the canvas above, and a rasterizer as
  \<^verbatim>\<open>raster.NewRasterizer\<close> leaves it.
\<close>

definition canvas_line :: Canvas where
  "canvas_line =
     canvas_2x2\<lparr>strokePath := [0, 0, 0, 0, 1, 1024, 0, 1],
                 fillPath := [0, 0, 0, 0, 1, 1024, 0, 1],
                 start := Some (NewVector 0 0),
                 current := Some (NewVector 16 0),
                 hasCurrent := True,
                 dashes := [5, 3],
                 fillRule := FillRuleEvenOdd\<rparr>"

definition new_rasterizer :: Rasterizer where
  "new_rasterizer = \<lparr>UseNonZeroWinding = False, added = [], rasterized = []\<rparr>"

section \<open>Properties of the matrices\<close>

lemma TransformPoint_Multiply:
  "TransformPoint (Multiply m1 m2) x y =
     TransformPoint m2 (fst (TransformPoint m1 x y)) (snd (TransformPoint m1 x y))"
  by (simp add: TransformPoint_def Multiply_def algebra_simps)

text \<open>
  Claim C4. Each convenience operation on a matrix \<open>m\<close> is the primitive multiplied by
  \<open>m\<close>, and \<open>Multiply\<close> applies its receiver first: a point goes through the new
  primitive and then through \<open>m\<close>. The identity translated by \<open>(10, 0)\<close> and then rotated
  by \<open>\<pi>/2\<close> sends the origin to \<open>(10, 0)\<close>.
\<close>

theorem convenience_ops_premultiply:
  "Matrix_Translate m dx dy = Multiply (Translate dx dy) m
   \<and> Matrix_Scale m sx sy = Multiply (Scale sx sy) m
   \<and> Matrix_Rotate m a = Multiply (Rotate a) m
   \<and> Matrix_Shear m hx hy = Multiply (Shear hx hy) m
   \<and> TransformPoint (Matrix_Translate m dx dy) x y =
       TransformPoint m (fst (TransformPoint (Translate dx dy) x y))
                        (snd (TransformPoint (Translate dx dy) x y))
   \<and> TransformPoint (Matrix_Scale m sx sy) x y =
       TransformPoint m (fst (TransformPoint (Scale sx sy) x y))
                        (snd (TransformPoint (Scale sx sy) x y))
   \<and> TransformPoint (Matrix_Rotate m a) x y =
       TransformPoint m (fst (TransformPoint (Rotate a) x y))
                        (snd (TransformPoint (Rotate a) x y))
   \<and> TransformPoint (Matrix_Shear m hx hy) x y =
       TransformPoint m (fst (TransformPoint (Shear hx hy) x y))
                        (snd (TransformPoint (Shear hx hy) x y))
   \<and> TransformPoint (Matrix_Rotate (Matrix_Translate Identity 10 0) (pi / 2)) 0 0 = (10, 0)"
proof -
  have "TransformPoint (Matrix_Rotate (Matrix_Translate Identity 10 0) (pi / 2)) 0 0 = (10, 0)"
    by (simp add: TransformPoint_def Matrix_Rotate_def Matrix_Translate_def Multiply_def
        Rotate_def Translate_def Identity_def)
  then show ?thesis
    by (simp add: Matrix_Translate_def Matrix_Scale_def Matrix_Rotate_def Matrix_Shear_def
        TransformPoint_Multiply)
qed

section \<open>Properties of the Bezier flattening\<close>


lemma Hypot_Distance: "Hypot (X q - X p) (Y q - Y p) = Distance p q"
  by (simp add: Hypot_def Distance_def Let_def power2_commute[of "X q"] power2_commute[of "Y q"] flip: power2_eq_square)

lemma Hypot_nonneg: "0 \<le> Hypot p q"
  by (simp add: Hypot_def)

lemma float_to_int_round: "0 \<le> l \<Longrightarrow> float_to_int (l + 0.5) = round l"
  by (simp add: float_to_int_def round_def)

lemma point_count_ge: "4 \<le> point_count l"
  by (simp add: point_count_def)

lemma round_nonneg: "0 \<le> l \<Longrightarrow> 0 \<le> round l"
  by (simp add: round_def)

lemma sint_word_of_int_64:
  "- (2 ^ 63) \<le> k \<Longrightarrow> k < 2 ^ 63 \<Longrightarrow> sint (word_of_int k :: 64 word) = k"
  by (simp add: sint_sbintrunc' signed_take_bit_int_eq_self)

text \<open>The count of the code, for a polygon length whose rounding is representable.\<close>

lemma count_eq:
  assumes "0 \<le> l" and "round l < 2 ^ 63"
  shows "sint (if float64_to_int rt (l + 0.5) <s 4 then 4 else float64_to_int rt (l + 0.5))
    = int (point_count l)"
proof -
  have r: "0 \<le> round l"
    using assms(1) by (rule round_nonneg)
  have f: "float64_to_int rt (l + 0.5) = word_of_int (round l)"
    using assms r by (simp only: float64_to_int_def float_to_int_round) simp
  have s: "sint (word_of_int (round l) :: 64 word) = round l"
    using assms(2) r by (intro sint_word_of_int_64) simp_all
  have "sint (4 :: 64 word) = 4"
    by simp
  then show ?thesis
    unfolding f by (simp add: word_sless_alt s point_count_def max_def)
qed

lemma quad_point:
  "NewVector ((1 - t) * (1 - t) * x0 + 2 * (1 - t) * t * x1 + t * t * x2)
             ((1 - t) * (1 - t) * y0 + 2 * (1 - t) * t * y1 + t * t * y2) =
   quadratic_at (NewVector x0 y0) (NewVector x1 y1) (NewVector x2 y2) t"
  by (simp add: quadratic_at_def NewVector_def power2_eq_square)

lemma cubic_point:
  "NewVector ((1 - t) * (1 - t) * (1 - t) * x0 + 3 * (1 - t) * (1 - t) * t * x1
                + 3 * (1 - t) * t * t * x2 + t * t * t * x3)
             ((1 - t) * (1 - t) * (1 - t) * y0 + 3 * (1 - t) * (1 - t) * t * y1
                + 3 * (1 - t) * t * t * y2 + t * t * t * y3) =
   cubic_at (NewVector x0 y0) (NewVector x1 y1) (NewVector x2 y2) (NewVector x3 y3) t"
  by (simp add: cubic_at_def NewVector_def power2_eq_square power3_eq_cube mult.assoc)

lemma quad_length:
  "Hypot (x1 - x0) (y1 - y0) + Hypot (x2 - x1) (y2 - y1) =
     Distance (NewVector x0 y0) (NewVector x1 y1) + Distance (NewVector x1 y1) (NewVector x2 y2)"
  using Hypot_Distance [of "NewVector x1 y1" "NewVector x0 y0"]
    Hypot_Distance [of "NewVector x2 y2" "NewVector x1 y1"]
  by (simp add: NewVector_def)

lemma cubic_length:
  "Hypot (x1 - x0) (y1 - y0) + Hypot (x2 - x1) (y2 - y1) + Hypot (x3 - x2) (y3 - y2) =
     Distance (NewVector x0 y0) (NewVector x1 y1) + Distance (NewVector x1 y1) (NewVector x2 y2)
     + Distance (NewVector x2 y2) (NewVector x3 y3)"
  using Hypot_Distance [of "NewVector x1 y1" "NewVector x0 y0"]
    Hypot_Distance [of "NewVector x2 y2" "NewVector x1 y1"]
    Hypot_Distance [of "NewVector x3 y3" "NewVector x2 y2"]
  by (simp add: NewVector_def)

text \<open>
  With a representable count the flatteners return the points of the curve when the
  runtime can allocate them, and panic in \<^verbatim>\<open>make\<close> when it cannot.
\<close>

lemma quad_eq:
  fixes x0 y0 x1 y1 x2 y2 :: real
  defines "l \<equiv> Distance (NewVector x0 y0) (NewVector x1 y1)
    + Distance (NewVector x1 y1) (NewVector x2 y2)"
  assumes "round l < 2 ^ 63"
  shows "CreateQuadraticBezier rt x0 y0 x1 y1 x2 y2 =
     (if max_len rt < point_count l then Inl (Panic ''makeslice: len out of range'')
      else Inr (map (\<lambda>i. quadratic_at (NewVector x0 y0) (NewVector x1 y1) (NewVector x2 y2)
                  (real i / (real (point_count l) - 1))) [0..<point_count l]))"
proof -
  have "0 \<le> l"
    by (simp add: l_def Distance_def Let_def)
  note c = count_eq [OF this assms(2), of rt]
  show ?thesis
    unfolding CreateQuadraticBezier_def Let_def quad_length l_def [symmetric] c quad_point
    by simp
qed

lemma cubic_eq:
  fixes x0 y0 x1 y1 x2 y2 x3 y3 :: real
  defines "l \<equiv> Distance (NewVector x0 y0) (NewVector x1 y1)
    + Distance (NewVector x1 y1) (NewVector x2 y2) + Distance (NewVector x2 y2) (NewVector x3 y3)"
  assumes "round l < 2 ^ 63"
  shows "CreateCubicBezier rt x0 y0 x1 y1 x2 y2 x3 y3 =
     (if max_len rt < point_count l then Inl (Panic ''makeslice: len out of range'')
      else Inr (map (\<lambda>i. cubic_at (NewVector x0 y0) (NewVector x1 y1) (NewVector x2 y2)
                  (NewVector x3 y3) (real i / (real (point_count l) - 1))) [0..<point_count l]))"
proof -
  have "0 \<le> l"
    by (simp add: l_def Distance_def Let_def)
  note c = count_eq [OF this assms(2), of rt]
  show ?thesis
    unfolding CreateCubicBezier_def Let_def cubic_length l_def [symmetric] c cubic_point
    by simp
qed

text \<open>Whatever the runtime, the flatteners fail in no other way than in \<^verbatim>\<open>make\<close>.\<close>

lemma CreateQuadraticBezier_panics:
  "CreateQuadraticBezier rt x0 y0 x1 y1 x2 y2 = Inl e \<Longrightarrow> e = Panic ''makeslice: len out of range''"
  by (simp add: CreateQuadraticBezier_def Let_def split: if_splits)

lemma CreateCubicBezier_panics:
  "CreateCubicBezier rt x0 y0 x1 y1 x2 y2 x3 y3 = Inl e \<Longrightarrow> e = Panic ''makeslice: len out of range''"
  by (simp add: CreateCubicBezier_def Let_def split: if_splits)

lemma quadratic_at_ends: "quadratic_at p0 p1 p2 0 = p0" "quadratic_at p0 p1 p2 1 = p2"
  by (simp_all add: quadratic_at_def)

lemma cubic_at_ends: "cubic_at p0 p1 p2 p3 0 = p0" "cubic_at p0 p1 p2 p3 1 = p3"
  by (simp_all add: cubic_at_def)

lemma last_param: "4 \<le> n \<Longrightarrow> real (n - 1) / (real n - 1) = 1"
  by (simp add: of_nat_diff)

lemma Distance_on_axis: "Distance (NewVector a 0) (NewVector b 0) = \<bar>a - b\<bar>"
  by (simp add: Distance_def NewVector_def Let_def)

text \<open>
  The curve with control points \<open>(0, 0)\<close>, \<open>(10\<^sup>1\<^sup>9, 0)\<close>, \<open>(2\<cdot>10\<^sup>1\<^sup>9, 0)\<close> has a control polygon
  of length \<open>2\<cdot>10\<^sup>1\<^sup>9\<close>, more than \<open>2\<^sup>6\<^sup>3\<close>.
\<close>

lemma long_polygon:
  "Distance (NewVector 0 0) (NewVector 10000000000000000000 0)
     + Distance (NewVector 10000000000000000000 0) (NewVector 20000000000000000000 0)
   = 20000000000000000000"
  by (simp add: Distance_on_axis)

text \<open>
  Claim C9, as stated, fails on long curves. A control polygon of length \<open>2\<cdot>10\<^sup>1\<^sup>9\<close> asks
  for \<open>2\<cdot>10\<^sup>1\<^sup>9\<close> points, which no 64-bit count holds: on amd64 the conversion gives the
  smallest \<^verbatim>\<open>int\<close>, the minimum 4 applies and the flattener returns 4 points. A polygon
  of length \<open>2\<^sup>4\<^sup>6\<close> has a representable count, and \<^verbatim>\<open>make\<close> panics on it.
\<close>

theorem bezier_flattening_long_curve:
  "map_sum id length
     (CreateQuadraticBezier runtime_amd64 0 0 10000000000000000000 0 20000000000000000000 0) = Inr 4
   \<and> point_count (Distance (NewVector 0 0) (NewVector 10000000000000000000 0)
        + Distance (NewVector 10000000000000000000 0) (NewVector 20000000000000000000 0))
      = 20000000000000000000
   \<and> CreateQuadraticBezier runtime_amd64 0 0 35184372088832 0 70368744177664 0
      = Inl (Panic ''makeslice: len out of range'')
   \<and> point_count (Distance (NewVector 0 0) (NewVector 35184372088832 0)
        + Distance (NewVector 35184372088832 0) (NewVector 70368744177664 0))
      = 70368744177664"
proof -
  have h: "Hypot 10000000000000000000 0 = 10000000000000000000"
    by (simp add: Hypot_def)
  have "float64_to_int runtime_amd64 (10000000000000000000 + 10000000000000000000 + 0.5)
      = - (2 ^ 63)"
    by (simp add: float64_to_int_def float_to_int_def runtime_amd64_def)
  moreover have "sint (- (2 ^ 63) :: 64 word) = - (2 ^ 63)"
    by simp
  ultimately have a: "map_sum id length
     (CreateQuadraticBezier runtime_amd64 0 0 10000000000000000000 0 20000000000000000000 0) = Inr 4"
    by (simp add: CreateQuadraticBezier_def Let_def h word_sless_alt runtime_amd64_def)
  have l: "Distance (NewVector 0 0) (NewVector 35184372088832 0)
        + Distance (NewVector 35184372088832 0) (NewVector 70368744177664 0) = 70368744177664"
    by (simp add: Distance_on_axis)
  have n: "point_count 70368744177664 = 70368744177664"
    by (simp add: point_count_def)
  have b: "CreateQuadraticBezier runtime_amd64 0 0 35184372088832 0 70368744177664 0
      = Inl (Panic ''makeslice: len out of range'')"
    using quad_eq [of 0 0 35184372088832 0 70368744177664 0 runtime_amd64]
    by (simp add: l n runtime_amd64_def)
  show ?thesis
    using a b by (simp add: long_polygon l n point_count_def)
qed

text \<open>
  Claim C9, amended. When the rounded length of the control polygon is representable as a
  64-bit \<^verbatim>\<open>int\<close> and the runtime can allocate that many points, flattening a quadratic
  or a cubic curve returns exactly \<open>n\<close> points, where \<open>n\<close> is the length of the control
  polygon rounded, and 4 at least; the \<open>i\<close>-th point is the curve at the parameter
  \<open>i / (n - 1)\<close>; the first point is the start of the curve and the last point is its end.
  When the count is representable and the runtime cannot allocate it, the flattener
  panics in \<^verbatim>\<open>make\<close>.
\<close>

theorem bezier_flattening_uniform:
  fixes xa ya xb yb xc yc xd yd :: real
  defines "p0 \<equiv> NewVector xa ya" and "p1 \<equiv> NewVector xb yb"
    and "p2 \<equiv> NewVector xc yc" and "p3 \<equiv> NewVector xd yd"
  defines "lq \<equiv> Distance p0 p1 + Distance p1 p2"
    and "lc \<equiv> Distance p0 p1 + Distance p1 p2 + Distance p2 p3"
  defines "nq \<equiv> point_count lq" and "nc \<equiv> point_count lc"
  shows "(round lq < 2 ^ 63 \<and> nq \<le> max_len rt \<longrightarrow>
       (\<exists>qs. CreateQuadraticBezier rt xa ya xb yb xc yc = Inr qs
          \<and> length qs = nq \<and> 4 \<le> nq
          \<and> (\<forall>i<nq. qs ! i = quadratic_at p0 p1 p2 (real i / (real nq - 1)))
          \<and> hd qs = p0 \<and> last qs = p2))
    \<and> (round lc < 2 ^ 63 \<and> nc \<le> max_len rt \<longrightarrow>
       (\<exists>cs. CreateCubicBezier rt xa ya xb yb xc yc xd yd = Inr cs
          \<and> length cs = nc \<and> 4 \<le> nc
          \<and> (\<forall>i<nc. cs ! i = cubic_at p0 p1 p2 p3 (real i / (real nc - 1)))
          \<and> hd cs = p0 \<and> last cs = p3))
    \<and> (round lq < 2 ^ 63 \<and> max_len rt < nq \<longrightarrow>
       CreateQuadraticBezier rt xa ya xb yb xc yc = Inl (Panic ''makeslice: len out of range''))
    \<and> (round lc < 2 ^ 63 \<and> max_len rt < nc \<longrightarrow>
       CreateCubicBezier rt xa ya xb yb xc yc xd yd = Inl (Panic ''makeslice: len out of range''))"
proof (intro conjI impI)
  assume a: "round lq < 2 ^ 63 \<and> nq \<le> max_len rt"
  define qs where "qs = map (\<lambda>i. quadratic_at p0 p1 p2 (real i / (real nq - 1))) [0..<nq]"
  have q: "CreateQuadraticBezier rt xa ya xb yb xc yc = Inr qs"
    using a quad_eq [of xa ya xb yb xc yc rt]
    by (simp add: qs_def nq_def lq_def p0_def p1_def p2_def)
  have nq: "4 \<le> nq"
    by (simp add: nq_def point_count_ge)
  have "length qs = nq" "\<forall>i<nq. qs ! i = quadratic_at p0 p1 p2 (real i / (real nq - 1))"
    by (simp_all add: qs_def)
  moreover have "hd qs = p0"
    using nq by (simp add: qs_def hd_map upt_conv_Cons quadratic_at_ends)
  moreover have "last qs = p2"
    using nq last_param [OF nq] by (simp add: qs_def last_map quadratic_at_ends)
  ultimately show "\<exists>qs. CreateQuadraticBezier rt xa ya xb yb xc yc = Inr qs
          \<and> length qs = nq \<and> 4 \<le> nq
          \<and> (\<forall>i<nq. qs ! i = quadratic_at p0 p1 p2 (real i / (real nq - 1)))
          \<and> hd qs = p0 \<and> last qs = p2"
    using q nq by blast
next
  assume a: "round lc < 2 ^ 63 \<and> nc \<le> max_len rt"
  define cs where "cs = map (\<lambda>i. cubic_at p0 p1 p2 p3 (real i / (real nc - 1))) [0..<nc]"
  have c: "CreateCubicBezier rt xa ya xb yb xc yc xd yd = Inr cs"
    using a cubic_eq [of xa ya xb yb xc yc xd yd rt]
    by (simp add: cs_def nc_def lc_def p0_def p1_def p2_def p3_def)
  have nc: "4 \<le> nc"
    by (simp add: nc_def point_count_ge)
  have "length cs = nc" "\<forall>i<nc. cs ! i = cubic_at p0 p1 p2 p3 (real i / (real nc - 1))"
    by (simp_all add: cs_def)
  moreover have "hd cs = p0"
    using nc by (simp add: cs_def hd_map upt_conv_Cons cubic_at_ends)
  moreover have "last cs = p3"
    using nc last_param [OF nc] by (simp add: cs_def last_map cubic_at_ends)
  ultimately show "\<exists>cs. CreateCubicBezier rt xa ya xb yb xc yc xd yd = Inr cs
          \<and> length cs = nc \<and> 4 \<le> nc
          \<and> (\<forall>i<nc. cs ! i = cubic_at p0 p1 p2 p3 (real i / (real nc - 1)))
          \<and> hd cs = p0 \<and> last cs = p3"
    using c nc by blast
next
  assume "round lq < 2 ^ 63 \<and> max_len rt < nq"
  then show "CreateQuadraticBezier rt xa ya xb yb xc yc = Inl (Panic ''makeslice: len out of range'')"
    using quad_eq [of xa ya xb yb xc yc rt] by (simp add: nq_def lq_def p0_def p1_def p2_def)
next
  assume "round lc < 2 ^ 63 \<and> max_len rt < nc"
  then show "CreateCubicBezier rt xa ya xb yb xc yc xd yd = Inl (Panic ''makeslice: len out of range'')"
    using cubic_eq [of xa ya xb yb xc yc xd yd rt]
    by (simp add: nc_def lc_def p0_def p1_def p2_def p3_def)
qed

theorem bezier_flattening_uniform_witness:
  "(\<exists>qs. CreateQuadraticBezier runtime_amd64 0 0 3 0 6 0 = Inr qs
      \<and> length qs = 6 \<and> qs ! 5 = NewVector 6 0 \<and> qs ! 1 = NewVector (6 / 5) 0
      \<and> hd qs = NewVector 0 0 \<and> last qs = NewVector 6 0)
   \<and> (\<exists>cs. CreateCubicBezier runtime_amd64 0 0 3 0 6 0 9 0 = Inr cs
      \<and> length cs = 9 \<and> cs ! 8 = NewVector 9 0 \<and> cs ! 4 = NewVector (9 / 2) 0
      \<and> hd cs = NewVector 0 0 \<and> last cs = NewVector 9 0)"
proof -
  have lq: "Distance (NewVector 0 0) (NewVector 3 0) + Distance (NewVector 3 0) (NewVector 6 0) = 6"
    by (simp add: Distance_on_axis)
  have lc: "6 + Distance (NewVector 6 0) (NewVector 9 0) = 9"
    by (simp add: Distance_on_axis)
  have n: "point_count 6 = 6" "point_count 9 = 9"
    by (simp_all add: point_count_def)
  have m: "max_len runtime_amd64 = 2 ^ 45"
    by (simp add: runtime_amd64_def)
  note t = bezier_flattening_uniform [where xa = 0 and ya = 0 and xb = 3 and yb = 0
        and xc = 6 and yc = 0 and xd = 9 and yd = 0 and rt = runtime_amd64, unfolded lq lc n m]
  from t obtain qs where q: "CreateQuadraticBezier runtime_amd64 0 0 3 0 6 0 = Inr qs"
    "length qs = 6"
    "\<forall>i<6. qs ! i = quadratic_at (NewVector 0 0) (NewVector 3 0) (NewVector 6 0) (real i / (real 6 - 1))"
    "hd qs = NewVector 0 0" "last qs = NewVector 6 0"
    by auto
  from t obtain cs where c: "CreateCubicBezier runtime_amd64 0 0 3 0 6 0 9 0 = Inr cs"
    "length cs = 9"
    "\<forall>i<9. cs ! i = cubic_at (NewVector 0 0) (NewVector 3 0) (NewVector 6 0) (NewVector 9 0)
       (real i / (real 9 - 1))"
    "hd cs = NewVector 0 0" "last cs = NewVector 9 0"
    by auto
  have "qs ! 5 = NewVector 6 0" "qs ! 1 = NewVector (6 / 5) 0"
    using q(3) by (simp_all add: quadratic_at_def NewVector_def power2_eq_square)
  moreover have "cs ! 8 = NewVector 9 0" "cs ! 4 = NewVector (9 / 2) 0"
    using c(3) by (simp_all add: cubic_at_def NewVector_def power2_eq_square power3_eq_cube)
  ultimately show ?thesis
    using q c by blast
qed

section \<open>Properties of the dashing\<close>

lemma Interpolate_on_axis:
  "Interpolate (NewVector a 0) (NewVector b 0) t = NewVector (a + (b - a) * t) 0"
  by (simp add: Interpolate_def NewVector_def Let_def)

lemma five_iterations: "5 + k = Suc (Suc (Suc (Suc (Suc k))))"
  by simp

text \<open>
  The literal case: the pattern \<open>[5, 3]\<close> on the segment from \<open>(0, 0)\<close> to \<open>(16, 0)\<close>.
  The loop cuts at 5, 8 and 13 and then consumes the rest of the segment, four iterations
  and the final test.
\<close>

lemma dashPath_5_3_line16:
  "dashPath (5 + k) [[NewVector 0 0, NewVector 16 0]] [5, 3] =
     Some [[NewVector 0 0, NewVector 5 0], [NewVector 8 0, NewVector 13 0]]"
  unfolding five_iterations
  by (simp add: dashPath_def Distance_on_axis Interpolate_on_axis Let_def)

text \<open>
  Claim C3, as stated: two "on" segments of lengths 5 and 3 and a trailing "on" segment
  of length 3. The code emits two segments, not three, and their lengths are 5 and 5.
\<close>

theorem dash_5_3_not_three_segments:
  "length (the (dashPath 5 [[NewVector 0 0, NewVector 16 0]] [5, 3])) \<noteq> 3
   \<and> map polyline_length (the (dashPath 5 [[NewVector 0 0, NewVector 16 0]] [5, 3])) \<noteq> [5, 3, 3]"
  using dashPath_5_3_line16 [of 0] by (simp add: Distance_on_axis)

text \<open>
  The general case: a straight polyline from \<open>p\<close> to \<open>q\<close>, at the distance 16, with any
  vertices in between. Along it the distance of two points is the difference of their
  positions, and interpolating between two points gives the point in between.
\<close>

lemma segment_square:
  assumes "Distance p q = 16"
  shows "(X q - X p)\<^sup>2 + (Y q - Y p)\<^sup>2 = 256"
proof -
  have "sqrt ((X q - X p)\<^sup>2 + (Y q - Y p)\<^sup>2) = 16"
    using assms
    by (simp add: Distance_def Let_def power2_commute [of "X q"] power2_commute [of "Y q"]
        flip: power2_eq_square)
  moreover have "sqrt 256 = 16"
    using real_sqrt_abs [of 16] by simp
  ultimately have "sqrt ((X q - X p)\<^sup>2 + (Y q - Y p)\<^sup>2) = sqrt 256"
    by simp
  then show ?thesis
    by (simp only: real_sqrt_eq_iff)
qed

lemma point_at_16:
  assumes "Distance p q = 16"
  shows "point_at p q s = NewVector (X p + (X q - X p) * (s / 16)) (Y p + (Y q - Y p) * (s / 16))"
  by (simp add: point_at_def assms Interpolate_def Let_def)

lemma Distance_point_at:
  assumes "Distance p q = 16"
  shows "Distance (point_at p q s) (point_at p q s') = \<bar>s - s'\<bar>"
proof -
  define dx where "dx = X q - X p"
  define dy where "dy = Y q - Y p"
  define k where "k = (s - s') / 16"
  have sq: "dx\<^sup>2 + dy\<^sup>2 = 256"
    using segment_square [OF assms] by (simp add: dx_def dy_def)
  have x: "X (point_at p q s) - X (point_at p q s') = dx * k"
    by (simp add: point_at_16 [OF assms] NewVector_def dx_def k_def algebra_simps
        diff_divide_distrib)
  have y: "Y (point_at p q s) - Y (point_at p q s') = dy * k"
    by (simp add: point_at_16 [OF assms] NewVector_def dy_def k_def algebra_simps
        diff_divide_distrib)
  have "(dx * k) * (dx * k) + (dy * k) * (dy * k) = (dx\<^sup>2 + dy\<^sup>2) * k\<^sup>2"
    by (simp add: power2_eq_square algebra_simps)
  also have "\<dots> = (16 * k)\<^sup>2"
    unfolding sq by (simp add: power2_eq_square)
  finally have e: "(dx * k) * (dx * k) + (dy * k) * (dy * k) = (16 * k)\<^sup>2" .
  have "Distance (point_at p q s) (point_at p q s') = sqrt ((16 * k)\<^sup>2)"
    unfolding Distance_def Let_def x y e ..
  also have "\<dots> = \<bar>16 * k\<bar>"
    by (rule real_sqrt_abs)
  finally show ?thesis
    by (simp add: k_def)
qed

lemma Interpolate_point_at:
  assumes "Distance p q = 16"
  shows "Interpolate (point_at p q s) (point_at p q s') t = point_at p q (s + (s' - s) * t)"
  by (simp add: point_at_16 [OF assms] Interpolate_def NewVector_def Let_def algebra_simps
      add_divide_distrib diff_divide_distrib)

lemma point_at_ends:
  assumes "Distance p q = 16"
  shows "point_at p q 0 = p" "point_at p q 16 = q"
  by (simp_all add: point_at_16 [OF assms] NewVector_def)

text \<open>
  The loop on such a polyline: it takes over the vertices that the current dash reaches,
  and the cut that ends the dash falls at the end position \<open>e\<close> of the dash.
\<close>

lemma drop_Cons_nth:
  assumes "drop i xs = y # ys"
  shows "i < length xs" "xs ! i = y" "drop (Suc i) xs = ys"
proof -
  show i: "i < length xs"
    using assms by (cases "i < length xs") simp_all
  from Cons_nth_drop_Suc [OF i] assms show "xs ! i = y" "drop (Suc i) xs = ys"
    by simp_all
qed

lemma dash_consume:
  assumes D: "Distance p q = 16"
  shows "drop i path = map (point_at p q) us @ rest \<Longrightarrow> sorted (a # us)
    \<Longrightarrow> \<forall>u\<in>set us. u - a + sl \<le> ds ! di \<Longrightarrow>
    dashPath_loop (length us + f) ds path (point_at p q a) i di sl seg res =
    dashPath_loop f ds path (point_at p q (last (a # us))) (i + length us) di
      (sl + (last (a # us) - a)) (seg @ map (point_at p q) us) res"
proof (induction us arbitrary: i a sl seg)
  case Nil
  show ?case
    by simp
next
  case (Cons u us)
  from Cons.prems(1) have "drop i path = point_at p q u # (map (point_at p q) us @ rest)"
    by simp
  note i = drop_Cons_nth [OF this]
  from Cons.prems(2) have au: "a \<le> u" and s: "sorted (u # us)"
    by simp_all
  have d: "Distance (point_at p q a) (point_at p q u) = u - a"
    using au by (simp add: Distance_point_at [OF D])
  from Cons.prems(3) have le: "\<not> u - a > ds ! di - sl"
    by simp
  have b: "\<forall>x\<in>set us. x - u + (sl + (u - a)) \<le> ds ! di"
  proof
    fix x
    assume "x \<in> set us"
    with Cons.prems(3) have "x - a + sl \<le> ds ! di"
      by simp
    then show "x - u + (sl + (u - a)) \<le> ds ! di"
      by linarith
  qed
  have "dashPath_loop (length (u # us) + f) ds path (point_at p q a) i di sl seg res =
      dashPath_loop (length us + f) ds path (point_at p q u) (Suc i) di (sl + (u - a))
        (seg @ [point_at p q u]) res"
    using i(1,2) d le by (simp add: Let_def)
  also note Cons.IH [OF i(3) s b, of "seg @ [point_at p q u]"]
  finally show ?case
    by simp
qed

lemma dash_cut:
  assumes D: "Distance p q = 16"
    and dr: "drop i path = point_at p q u # rest"
    and m: "ds ! di - sl = e - b" and be: "b \<le> e" and eu: "e < u" and seg: "seg \<noteq> []"
  shows "dashPath_loop (Suc f) ds path (point_at p q b) i di sl seg res =
    dashPath_loop f ds path (point_at p q e) i ((di + 1) mod length ds) 0 [point_at p q e]
      (if di mod 2 = 0 then res @ [seg @ [point_at p q e]] else res)"
proof -
  note j = drop_Cons_nth [OF dr]
  have d: "Distance (point_at p q b) (point_at p q u) = u - b"
    using be eu by (simp add: Distance_point_at [OF D])
  have gt: "Distance (point_at p q b) (path ! i) > ds ! di - sl"
    unfolding j(2) d m using eu by simp
  have ne: "u - b \<noteq> 0"
    using be eu by simp
  have cut: "Interpolate (point_at p q b) (path ! i)
      ((ds ! di - sl) / Distance (point_at p q b) (path ! i)) = point_at p q e"
    unfolding j(2) d m using ne by (simp add: Interpolate_point_at [OF D])
  have "dashPath_loop (Suc f) ds path (point_at p q b) i di sl seg res =
    dashPath_loop f ds path (point_at p q e) i ((di + 1) mod length ds) 0 [point_at p q e]
      (if di mod 2 = 0 \<and> length (seg @ [point_at p q e]) > 1
       then res @ [seg @ [point_at p q e]] else res)"
    by (simp only: dashPath_loop.simps Let_def cut if_P [OF j(1)] if_P [OF gt])
  then show ?thesis
    using seg by simp
qed

lemma dash_phase:
  assumes D: "Distance p q = 16"
    and dr: "drop i path = map (point_at p q) us @ point_at p q u # rest"
    and so: "sorted (a # us)" and le: "\<forall>x\<in>set us. x \<le> e" and ae: "a \<le> e" and eu: "e < u"
    and e: "e = a - sl + ds ! di" and seg: "seg \<noteq> []"
  shows "dashPath_loop (length us + Suc f) ds path (point_at p q a) i di sl seg res =
    dashPath_loop f ds path (point_at p q e) (i + length us) ((di + 1) mod length ds) 0
      [point_at p q e]
      (if di mod 2 = 0 then res @ [seg @ map (point_at p q) us @ [point_at p q e]] else res)"
proof -
  define b where "b = last (a # us)"
  have "b \<in> set (a # us)"
    unfolding b_def by (rule last_in_set) simp
  then have be: "b \<le> e"
    using le ae by auto
  have c: "\<forall>u\<in>set us. u - a + sl \<le> ds ! di"
    using le e by auto
  note 1 = dash_consume [OF D dr so c, of "Suc f" seg res, folded b_def]
  have dr': "drop (i + length us) path = point_at p q u # rest"
    using dr by (simp add: add.commute [of i] flip: drop_drop)
  have m: "ds ! di - (sl + (b - a)) = e - b"
    using e by simp
  have seg': "seg @ map (point_at p q) us \<noteq> []"
    using seg by simp
  note 2 = dash_cut [OF D dr' m be eu seg', of f res]
  show ?thesis
    unfolding 1 2 by simp
qed

text \<open>
  The four runs of the pattern \<open>[5, 3]\<close> on the length 16: on to 5, off to 8, on to 13, off
  to 16. The vertices split accordingly, and the end of the line lies in the last run.
\<close>

lemma sorted_split:
  fixes c :: real
  shows "sorted xs \<Longrightarrow> xs = filter (\<lambda>x. x \<le> c) xs @ filter (\<lambda>x. c < x) xs"
proof (induction xs)
  case Nil
  show ?case
    by simp
next
  case (Cons x xs)
  show ?case
  proof (cases "x \<le> c")
    case True
    then show ?thesis
      using Cons by simp
  next
    case False
    then have "\<forall>y\<in>set xs. c < y"
      using Cons.prems by auto
    then have "filter (\<lambda>x. x \<le> c) xs = []" "filter (\<lambda>x. c < x) xs = xs"
      by (auto simp add: filter_empty_conv filter_id_conv)
    then show ?thesis
      using False by simp
  qed
qed

lemma sorted_le_last:
  fixes xs :: "real list"
  shows "sorted xs \<Longrightarrow> x \<in> set xs \<Longrightarrow> x \<le> last xs"
  by (induction xs) auto

lemma polyline_length_point_at:
  assumes D: "Distance p q = 16"
  shows "sorted (a # us) \<Longrightarrow>
    polyline_length (map (point_at p q) (a # us)) = last (a # us) - a"
proof (induction us arbitrary: a)
  case Nil
  show ?case
    by simp
next
  case (Cons u us)
  from Cons.prems have "a \<le> u" "sorted (u # us)"
    by simp_all
  then show ?case
    using Cons.IH [of u] by (simp add: Distance_point_at [OF D])
qed

lemma dashPath_loop_end:
  "length path \<le> i \<Longrightarrow>
     dashPath_loop (Suc f) ds path previous i di sl seg res = Some (di, seg, res)"
  by simp

lemma dash_5_3_line:
  assumes D: "Distance p q = 16" and so: "sorted (0 # ts)" and ne: "ts \<noteq> []"
    and la: "last ts = 16"
  shows "dashPath (length ts + 4 + k) [p # map (point_at p q) ts] [5, 3] =
     Some [p # map (point_at p q) (filter (\<lambda>s. s \<le> 5) ts) @ [point_at p q 5],
           point_at p q 8 # map (point_at p q) (filter (\<lambda>s. 8 < s \<and> s \<le> 13) ts)
             @ [point_at p q 13]]"
proof -
  let ?A = "point_at p q"
  define ds :: "real list" where "ds = [5, 3]"
  have dsf: "ds ! 0 = 5" "ds ! 1 = 3" "length ds = 2"
    by (simp_all add: ds_def)
  define us1 where "us1 = filter (\<lambda>s. s \<le> 5) ts"
  define r1 where "r1 = filter (\<lambda>s. 5 < s) ts"
  define us2 where "us2 = filter (\<lambda>s. s \<le> 8) r1"
  define r2 where "r2 = filter (\<lambda>s. 8 < s) r1"
  define us3 where "us3 = filter (\<lambda>s. s \<le> 13) r2"
  define r3 where "r3 = filter (\<lambda>s. 13 < s) r2"
  define path where "path = ?A 0 # map ?A ts"
  have st: "sorted ts" and pos: "\<forall>x\<in>set ts. 0 \<le> x"
    using so by simp_all
  have s1: "sorted r1"
    unfolding r1_def using st by (rule sorted_wrt_filter)
  have s2: "sorted r2"
    unfolding r2_def using s1 by (rule sorted_wrt_filter)
  have s3: "sorted r3"
    unfolding r3_def using s2 by (rule sorted_wrt_filter)
  have t1: "ts = us1 @ r1"
    unfolding us1_def r1_def using st by (rule sorted_split)
  have t2: "r1 = us2 @ r2"
    unfolding us2_def r2_def using s1 by (rule sorted_split)
  have t3: "r2 = us3 @ r3"
    unfolding us3_def r3_def using s2 by (rule sorted_split)
  have "16 \<in> set ts"
    using last_in_set [OF ne] la by simp
  then have m1: "16 \<in> set r1"
    by (simp add: r1_def)
  then have m2: "16 \<in> set r2"
    by (simp add: r2_def)
  then have m3: "16 \<in> set r3"
    by (simp add: r3_def)
  from m1 obtain u1 r1' where c1: "r1 = u1 # r1'"
    by (cases r1) auto
  from m2 obtain u2 r2' where c2: "r2 = u2 # r2'"
    by (cases r2) auto
  from m3 obtain u3 r3' where c3: "r3 = u3 # r3'"
    by (cases r3) auto
  have "u1 \<in> set r1"
    using c1 by simp
  then have g1: "5 < u1"
    by (simp add: r1_def)
  have "u2 \<in> set r2"
    using c2 by simp
  then have g2: "8 < u2"
    by (simp add: r2_def)
  have "u3 \<in> set r3"
    using c3 by simp
  then have g3: "13 < u3"
    by (simp add: r3_def)
  have n1: "drop 1 path = map ?A us1 @ map ?A r1"
    unfolding path_def by (subst t1) simp
  then have d1: "drop 1 path = map ?A us1 @ ?A u1 # map ?A r1'"
    by (simp add: c1)
  have "drop (length us1) (drop 1 path) = map ?A us2 @ map ?A r2"
    unfolding n1 by (subst t2) simp
  then have n2: "drop (1 + length us1) path = map ?A us2 @ map ?A r2"
    by simp
  then have d2: "drop (1 + length us1) path = map ?A us2 @ ?A u2 # map ?A r2'"
    by (simp add: c2)
  have "drop (length us2) (drop (1 + length us1) path) = map ?A us3 @ map ?A r3"
    unfolding n2 by (subst t3) simp
  then have n3: "drop (1 + length us1 + length us2) path = map ?A us3 @ map ?A r3"
    by (simp add: add.commute)
  then have d3: "drop (1 + length us1 + length us2) path = map ?A us3 @ ?A u3 # map ?A r3'"
    by (simp add: c3)
  have "drop (length us3) (drop (1 + length us1 + length us2) path) = map ?A r3"
    unfolding n3 by simp
  then have d4: "drop (1 + length us1 + length us2 + length us3) path = map ?A r3 @ []"
    by (simp add: add.commute)
  have p: "length ts = length us1 + length us2 + length us3 + length r3"
    by (subst t1, subst t2, subst t3) simp
  have e: "length path \<le> 1 + length us1 + length us2 + length us3 + length r3"
    unfolding path_def by (simp add: p)
  have so1: "sorted (0 # us1)" and le1: "\<forall>x\<in>set us1. x \<le> 5"
    using st pos by (simp_all add: us1_def sorted_wrt_filter)
  have "sorted us2"
    unfolding us2_def using s1 by (rule sorted_wrt_filter)
  moreover have "\<forall>x\<in>set us2. 5 < x"
    by (simp add: us2_def r1_def)
  ultimately have so2: "sorted (5 # us2)"
    by (auto simp add: less_imp_le)
  have le2: "\<forall>x\<in>set us2. x \<le> 8"
    by (simp add: us2_def)
  have "sorted us3"
    unfolding us3_def using s2 by (rule sorted_wrt_filter)
  moreover have "\<forall>x\<in>set us3. 8 < x"
    by (simp add: us3_def r2_def)
  ultimately have so3: "sorted (8 # us3)"
    by (auto simp add: less_imp_le)
  have le3: "\<forall>x\<in>set us3. x \<le> 13"
    by (simp add: us3_def)
  have "\<forall>x\<in>set r3. 13 < x"
    by (simp add: r3_def)
  then have so4: "sorted (13 # r3)"
    using s3 by (auto simp add: less_imp_le)
  have le4: "\<forall>u\<in>set r3. u - 13 + 0 \<le> ds ! 1"
  proof
    fix u
    assume "u \<in> set r3"
    then have "u \<in> set ts"
      by (simp add: r3_def r2_def r1_def)
    then have "u \<le> 16"
      using sorted_le_last [OF st] la by simp
    then show "u - 13 + 0 \<le> ds ! 1"
      unfolding dsf by simp
  qed
  have r3: "r3 \<noteq> []"
    using c3 by simp
  have ae: "(0::real) \<le> 5" "(5::real) \<le> 8" "(8::real) \<le> 13"
    by simp_all
  have ee: "(5::real) = 0 - 0 + ds ! 0" "(8::real) = 5 - 0 + ds ! 1" "(13::real) = 8 - 0 + ds ! 0"
    by (simp_all add: ds_def)
  have di: "(0 + 1) mod length ds = 1" "(1 + 1) mod length ds = 0" "(0::nat) mod 2 = 0"
    "(1::nat) mod 2 \<noteq> 0"
    by (simp_all add: ds_def)
  have ph1: "dashPath_loop (length us1 + Suc f) ds path (?A 0) 1 0 0 [?A 0] [] =
      dashPath_loop f ds path (?A 5) (1 + length us1) 1 0 [?A 5] [?A 0 # map ?A us1 @ [?A 5]]" for f
    using dash_phase [OF D d1 so1 le1 ae(1) g1 ee(1), of "[?A 0]" f "[]"]
    unfolding di by simp
  have ph2: "dashPath_loop (length us2 + Suc f) ds path (?A 5) (1 + length us1) 1 0 [?A 5] res =
      dashPath_loop f ds path (?A 8) (1 + length us1 + length us2) 0 0 [?A 8] res" for f res
    using dash_phase [OF D d2 so2 le2 ae(2) g2 ee(2), of "[?A 5]" f res]
    unfolding di by simp
  have ph3: "dashPath_loop (length us3 + Suc f) ds path (?A 8) (1 + length us1 + length us2) 0 0
        [?A 8] res =
      dashPath_loop f ds path (?A 13) (1 + length us1 + length us2 + length us3) 1 0 [?A 13]
        (res @ [?A 8 # map ?A us3 @ [?A 13]])" for f res
    using dash_phase [OF D d3 so3 le3 ae(3) g3 ee(3), of "[?A 8]" f res]
    unfolding di by simp
  have ph4: "dashPath_loop (length r3 + Suc f) ds path (?A 13)
        (1 + length us1 + length us2 + length us3) 1 0 [?A 13] res =
      Some (1, ?A 13 # map ?A r3, res)" for f res
    unfolding dash_consume [OF D d4 so4 le4, of "Suc f" "[?A 13]" res]
    using e by (simp add: r3)
  have fuel: "length ts + 4 + k =
      length us1 + Suc (length us2 + Suc (length us3 + Suc (length r3 + Suc k)))"
    by (simp add: p)
  have run: "dashPath_loop (length ts + 4 + k) ds path (?A 0) 1 0 0 [?A 0] [] =
      Some (1, ?A 13 # map ?A r3, [?A 0 # map ?A us1 @ [?A 5], ?A 8 # map ?A us3 @ [?A 13]])"
    unfolding fuel ph1 ph2 ph3 ph4 by simp
  have u3: "us3 = filter (\<lambda>s. 8 < s \<and> s \<le> 13) ts"
    unfolding us3_def r2_def r1_def by (auto intro: filter_cong)
  have l: "\<not> length path < 2"
    using ne by (cases ts) (simp_all add: path_def)
  have "dashPath (length ts + 4 + k) [path] [5, 3] =
      Some [?A 0 # map ?A us1 @ [?A 5], ?A 8 # map ?A us3 @ [?A 13]]"
    using l run by (simp add: dashPath_def ds_def path_def)
  then show ?thesis
    by (simp add: path_def us1_def u3 point_at_ends [OF D])
qed

lemma Distance_on_vertical: "Distance (NewVector 0 a) (NewVector 0 b) = \<bar>a - b\<bar>"
  by (simp add: Distance_def NewVector_def Let_def)

text \<open>
  Claim C3, amended. On every straight polyline of total length 16 (from \<open>p\<close> to \<open>q\<close>, with
  vertices at the nondecreasing distances \<open>ts\<close> from \<open>p\<close>, the last one 16), with enough
  iterations (one for every vertex and four more) the dasher returns, and it emits exactly
  two "on" segments, each of length 5: from \<open>p\<close> to the cut point at 5 and from the cut
  point at 8 to the cut point at 13, each with the vertices of the polyline that lie in
  between. The runs from 5 to 8 and from 13 to 16 belong to the odd pattern entry and are
  not emitted. On the segment from \<open>p\<close> to \<open>q\<close> alone the two segments are the pairs of cut
  points.
\<close>

theorem dash_5_3_two_on_segments:
  assumes "Distance p q = 16" and "sorted (0 # ts)" and "ts \<noteq> []" and "last ts = 16"
  defines "on1 \<equiv> p # map (point_at p q) (filter (\<lambda>s. s \<le> 5) ts) @ [point_at p q 5]"
    and "on2 \<equiv> point_at p q 8 # map (point_at p q) (filter (\<lambda>s. 8 < s \<and> s \<le> 13) ts)
        @ [point_at p q 13]"
  shows "polyline_length (p # map (point_at p q) ts) = 16
    \<and> dashPath (length ts + 4 + k) [p # map (point_at p q) ts] [5, 3] = Some [on1, on2]
    \<and> map polyline_length [on1, on2] = [5, 5]
    \<and> dashPath (5 + k) [[p, q]] [5, 3]
        = Some [[p, point_at p q 5], [point_at p q 8, point_at p q 13]]
    \<and> Distance p (point_at p q 5) = 5 \<and> Distance p (point_at p q 8) = 8
    \<and> Distance p (point_at p q 13) = 13"
proof (intro conjI)
  note D = assms(1)
  let ?A = "point_at p q"
  have p: "p = ?A 0"
    by (simp add: point_at_ends [OF D])
  have st: "sorted ts" and pos: "\<forall>x\<in>set ts. 0 \<le> x"
    using assms(2) by simp_all
  show "polyline_length (p # map ?A ts) = 16"
    using polyline_length_point_at [OF D assms(2)] assms(3,4) by (simp flip: p)
  show "dashPath (length ts + 4 + k) [p # map ?A ts] [5, 3] = Some [on1, on2]"
    unfolding on1_def on2_def using assms(1-4) by (rule dash_5_3_line)
  have "sorted (0 # filter (\<lambda>s. s \<le> 5) ts @ [5])"
    using st pos by (simp add: sorted_append sorted_wrt_filter)
  from polyline_length_point_at [OF D this] have 1: "polyline_length on1 = 5"
    by (simp add: on1_def flip: p)
  have "sorted (8 # filter (\<lambda>s. 8 < s \<and> s \<le> 13) ts @ [13])"
    using st by (auto simp add: sorted_append sorted_wrt_filter less_imp_le)
  from polyline_length_point_at [OF D this] have 2: "polyline_length on2 = 5"
    by (simp add: on2_def)
  show "map polyline_length [on1, on2] = [5, 5]"
    using 1 2 by simp
  have "dashPath (length [16 :: real] + 4 + k) [p # map ?A [16]] [5, 3] =
      Some [p # map ?A (filter (\<lambda>s. s \<le> 5) [16]) @ [?A 5],
            ?A 8 # map ?A (filter (\<lambda>s. 8 < s \<and> s \<le> 13) [16]) @ [?A 13]]"
    using D by (rule dash_5_3_line) simp_all
  then show "dashPath (5 + k) [[p, q]] [5, 3] = Some [[p, ?A 5], [?A 8, ?A 13]]"
    by (simp add: point_at_ends [OF D] add.commute)
  show "Distance p (?A 5) = 5" "Distance p (?A 8) = 8" "Distance p (?A 13) = 13"
    using Distance_point_at [OF D, of 0] by (simp_all flip: p)
qed

theorem dash_5_3_two_on_segments_witness:
  "dashPath 6 [[NewVector 0 0, NewVector 0 4, NewVector 0 16]] [5, 3] =
     Some [[NewVector 0 0, NewVector 0 4, NewVector 0 5], [NewVector 0 8, NewVector 0 13]]
   \<and> dashPath 5 [[NewVector 0 0, NewVector 0 16]] [5, 3] =
     Some [[NewVector 0 0, NewVector 0 5], [NewVector 0 8, NewVector 0 13]]
   \<and> map polyline_length
        [[NewVector 0 0, NewVector 0 4, NewVector 0 5], [NewVector 0 8, NewVector 0 13]] = [5, 5]"
proof -
  have D: "Distance (NewVector 0 0) (NewVector 0 16) = 16"
    by (simp add: Distance_on_vertical)
  have A: "point_at (NewVector 0 0) (NewVector 0 16) s = NewVector 0 s" for s
    unfolding point_at_16 [OF D] by (simp add: NewVector_def)
  have "sorted [0, 4, 16 :: real]" "[4, 16 :: real] \<noteq> []" "last [4, 16 :: real] = 16"
    by simp_all
  from dash_5_3_two_on_segments [OF D this, of 0] show ?thesis
    by (simp add: A)
qed

section \<open>Properties of the state stack\<close>

lemma Pop_self_pointer:
  assumes "h c = Some cv" and "stack cv \<noteq> []" and "last (stack cv) = c"
  shows "Pop h c = Inr h"
proof -
  have x: "stack cv ! (length (stack cv) - 1) = c"
    using assms(2,3) by (simp add: last_conv_nth)
  have "h(c \<mapsto> cv) = h"
    using assms(1) by (simp add: fun_upd_idem)
  then show ?thesis
    using assms(1,2) x by (simp add: Pop_def Let_def)
qed

text \<open>
  Claim C7. \<open>Pop\<close> on a canvas whose stack is empty panics at once (the index
  \<^verbatim>\<open>len(s)-1\<close> is out of range); it never returns a store, so it is no silent no-op.
\<close>

theorem Pop_empty_stack_panics:
  assumes "h c = Some cv" and "stack cv = []"
  shows "Pop h c = Inl IndexOutOfRange \<and> (\<forall>h'. Pop h c \<noteq> Inr h')"
  using assms by (simp add: Pop_def)

theorem Pop_empty_stack_panics_witness:
  "Pop store_2x2 0 = Inl IndexOutOfRange \<and> (\<forall>h'. Pop store_2x2 0 \<noteq> Inr h')"
proof -
  have a: "store_2x2 0 = Some canvas_2x2"
    by (simp add: store_2x2_def)
  have b: "stack canvas_2x2 = []"
    by (simp add: canvas_2x2_def NewCanvasForRGBA_def Let_def)
  show ?thesis
    using Pop_empty_stack_panics [of store_2x2 0 canvas_2x2, OF a b] .
qed

text \<open>
  Claim C2, as stated, at \<^verbatim>\<open>c.Push(); c.MoveTo(1, 2); c.Pop()\<close> on a new canvas: after
  \<open>Pop\<close> the has-current-point flag is set, and the current point and the subpath start
  are those of the \<open>MoveTo\<close>; none of them has the value it had at the \<open>Push\<close>.
\<close>

theorem Pop_does_not_rewind_cursor:
  "(case push_moveto_pop of
      Inl e \<Rightarrow> False
    | Inr h \<Rightarrow> map_option hasCurrent (h 0) = Some True
               \<and> map_option hasCurrent (store_2x2 0) = Some False
               \<and> map_option current (h 0) \<noteq> map_option current (store_2x2 0)
               \<and> map_option start (h 0) \<noteq> map_option start (store_2x2 0))"
  by (simp add: push_moveto_pop_def and_then_def Push_def Pop_def at_address_err_def
      store_2x2_def canvas_2x2_def NewCanvasForRGBA_def MoveTo_def Let_def
      Canvas_TransformPoint_def TransformPoint_def Identity_def)

text \<open>
  Claim C2, amended. On a canvas whose stack is not empty and whose top entry points to
  a canvas, \<open>Pop\<close> returns, and it leaves the clip mask, the subpath start, the current
  point, the has-current-point flag and the fill and stroke path programs as they were
  just before the \<open>Pop\<close>; the transform, the styles and the stack are those of the canvas
  the top entry points to.
\<close>

theorem Pop_keeps_mask_cursor_and_paths:
  assumes "h c = Some before" and "stack before \<noteq> []"
    and "h (last (stack before)) = Some saved"
  shows "\<exists>after. Pop h c = Inr (h(c \<mapsto> after))
    \<and> mask_alpha after = mask_alpha before
    \<and> start after = start before
    \<and> current after = current before
    \<and> hasCurrent after = hasCurrent before
    \<and> fillPath after = fillPath before
    \<and> strokePath after = strokePath before
    \<and> matrix after = matrix saved
    \<and> lineWidth after = lineWidth saved
    \<and> lineCap after = lineCap saved
    \<and> lineJoin after = lineJoin saved
    \<and> fillRule after = fillRule saved
    \<and> dashes after = dashes saved
    \<and> color after = color saved
    \<and> fillPattern after = fillPattern saved
    \<and> strokePattern after = strokePattern saved
    \<and> stack after = stack saved"
proof -
  have x: "stack before ! (length (stack before) - 1) = last (stack before)"
    using assms(2) by (simp add: last_conv_nth)
  let ?after = "saved\<lparr>mask_alpha := mask_alpha before, strokePath := strokePath before,
    fillPath := fillPath before, start := start before, current := current before,
    hasCurrent := hasCurrent before\<rparr>"
  have "Pop h c = Inr (h(c \<mapsto> ?after))"
    using assms x by (simp add: Pop_def Let_def)
  then show ?thesis
    by (intro exI [of _ ?after]) simp
qed


lemma Push_MoveTo_reaches:
  "and_then (Push store_2x2 0) (\<lambda>h. at_address_err (\<lambda>c. MoveTo c 1 2) h 0) =
     Inr (store_2x2(0 \<mapsto> canvas_pushed_moved))"
  by (simp add: and_then_def Push_def at_address_err_def store_2x2_def canvas_pushed_moved_def
      canvas_2x2_def NewCanvasForRGBA_def MoveTo_def Let_def Canvas_TransformPoint_def
      TransformPoint_def Identity_def Start_def Fixed_def NewVector_def go_int_def
      float_to_int_def fixed_I_def)

theorem Pop_keeps_mask_cursor_and_paths_witness:
  "\<exists>after. Pop (store_2x2(0 \<mapsto> canvas_pushed_moved)) 0 =
       Inr ((store_2x2(0 \<mapsto> canvas_pushed_moved))(0 \<mapsto> after))
     \<and> hasCurrent after = True
     \<and> start after = Some (NewVector 1 2)
     \<and> current after = Some (NewVector 1 2)
     \<and> fillPath after = [0, 64, 128, 0]
     \<and> strokePath after = [0, 64, 128, 0]
     \<and> mask_alpha after = None
     \<and> lineWidth after = 1"
proof -
  let ?h = "store_2x2(0 \<mapsto> canvas_pushed_moved)"
  have a: "?h 0 = Some canvas_pushed_moved"
    by simp
  have b: "stack canvas_pushed_moved \<noteq> []"
    by (simp add: canvas_pushed_moved_def)
  have c: "?h (last (stack canvas_pushed_moved)) = Some canvas_pushed_moved"
    by (simp add: canvas_pushed_moved_def)
  from Pop_keeps_mask_cursor_and_paths [of ?h 0 canvas_pushed_moved canvas_pushed_moved, OF a b c]
  obtain after where p: "Pop ?h 0 = Inr (?h(0 \<mapsto> after))"
    and f: "mask_alpha after = mask_alpha canvas_pushed_moved"
      "start after = start canvas_pushed_moved"
      "current after = current canvas_pushed_moved"
      "hasCurrent after = hasCurrent canvas_pushed_moved"
      "fillPath after = fillPath canvas_pushed_moved"
      "strokePath after = strokePath canvas_pushed_moved"
      "lineWidth after = lineWidth canvas_pushed_moved"
    by blast
  show ?thesis
    using p f
    by (intro exI [of _ after])
      (simp add: canvas_pushed_moved_def canvas_2x2_def NewCanvasForRGBA_def Let_def)
qed

text \<open>
  Claim C1 does not hold of the code. \<open>Push\<close> stores the pointer to the canvas itself,
  not a copy, so a mutation \<open>f\<close> between \<open>Push\<close> and \<open>Pop\<close> (one that leaves the stack
  alone) changes the saved canvas as well: \<open>Pop\<close> assigns the canvas to itself. After
  the three calls the canvas is the mutated one, and the pushed entry is still on its
  stack. The concrete case has the line width 5 instead of 1 and the translated matrix
  instead of the identity.
\<close>

theorem Push_mutate_Pop_restores_nothing:
  assumes "h c = Some cv"
    and "stack (f (cv\<lparr>stack := stack cv @ [c]\<rparr>)) = stack cv @ [c]"
  shows "and_then (Push h c) (\<lambda>h. and_then (at_address f h c) (\<lambda>h. Pop h c)) =
     Inr (h(c \<mapsto> f (cv\<lparr>stack := stack cv @ [c]\<rparr>)))"
proof -
  let ?cv = "f (cv\<lparr>stack := stack cv @ [c]\<rparr>)"
  let ?h = "h(c \<mapsto> ?cv)"
  have "Pop ?h c = Inr ?h"
    using assms(2) by (intro Pop_self_pointer [of ?h c ?cv]) simp_all
  then show ?thesis
    using assms(1) by (simp add: and_then_def Push_def at_address_def)
qed

theorem Push_mutate_Pop_restores_nothing_witness:
  "(case push_style_pop of
      Inl e \<Rightarrow> False
    | Inr h \<Rightarrow> map_option lineWidth (h 0) = Some 5
               \<and> map_option lineWidth (store_2x2 0) = Some 1
               \<and> map_option (\<lambda>c. TransformPoint (matrix c) 0 0) (h 0) = Some (10, 0)
               \<and> map_option (\<lambda>c. TransformPoint (matrix c) 0 0) (store_2x2 0) = Some (0, 0)
               \<and> map_option stack (h 0) = Some [0])"
proof -
  have a: "store_2x2 0 = Some canvas_2x2"
    by (simp add: store_2x2_def)
  have b: "stack (Canvas_Translate (SetLineWidth (canvas_2x2\<lparr>stack := stack canvas_2x2 @ [0]\<rparr>) 5) 10 0)
      = stack canvas_2x2 @ [0]"
    by (simp add: Canvas_Translate_def SetLineWidth_def)
  show ?thesis
    unfolding push_style_pop_def
      Push_mutate_Pop_restores_nothing [of store_2x2 0 canvas_2x2
        "\<lambda>c. Canvas_Translate (SetLineWidth c 5) 10 0", OF a b]
    by (simp add: store_2x2_def canvas_2x2_def NewCanvasForRGBA_def Let_def
        Canvas_Translate_def SetLineWidth_def Matrix_Translate_def Multiply_def Translate_def
        Identity_def TransformPoint_def)
qed

section \<open>Properties of the clip mask setter\<close>

lemma NewCanvasForRGBA_dimensions:
  "(width (NewCanvasForRGBA i r face), height (NewCanvasForRGBA i r face)) =
     Size (RGBA_Rect (im (NewCanvasForRGBA i r face)))"
  by (simp add: NewCanvasForRGBA_def Let_def)

text \<open>
  Claim C8. On a canvas whose width and height are the size of its image (as the
  constructor sets them), \<open>SetMask\<close> with a mask of another size returns the error and
  the canvas as it was, clip mask included; with a mask of the same size it returns no
  error and installs the mask.
\<close>

theorem SetMask_checks_size:
  assumes "(width c, height c) = Size (RGBA_Rect (im c))"
  shows "(Size (Rect a) \<noteq> (width c, height c) \<longrightarrow>
            SetMask c (Some a) = Inr (c, Some ''mask size must match context size''))
       \<and> (Size (Rect a) = (width c, height c) \<longrightarrow>
            SetMask c (Some a) = Inr (c\<lparr>mask_alpha := Some a\<rparr>, None))"
  using assms by (simp add: SetMask_def)

theorem SetMask_checks_size_witness:
  "SetMask canvas_2x2 (Some \<lparr>Pix = replicate 6 0, Rect = \<lparr>Min_pt = (0, 0), Max_pt = (3, 2)\<rparr>\<rparr>) =
     Inr (canvas_2x2, Some ''mask size must match context size'')
   \<and> mask_alpha canvas_2x2 = None
   \<and> SetMask canvas_2x2 (Some \<lparr>Pix = replicate 4 255, Rect = \<lparr>Min_pt = (1, 1), Max_pt = (3, 3)\<rparr>\<rparr>) =
     Inr (canvas_2x2\<lparr>mask_alpha :=
            Some \<lparr>Pix = replicate 4 255, Rect = \<lparr>Min_pt = (1, 1), Max_pt = (3, 3)\<rparr>\<rparr>\<rparr>, None)"
proof -
  have d: "(width canvas_2x2, height canvas_2x2) = Size (RGBA_Rect (im canvas_2x2))"
    unfolding canvas_2x2_def by (rule NewCanvasForRGBA_dimensions)
  have wh: "(width canvas_2x2, height canvas_2x2) = (2, 2)"
    by (simp add: canvas_2x2_def NewCanvasForRGBA_def Let_def image_2x2_def Size_def)
  have m: "mask_alpha canvas_2x2 = None"
    by (simp add: canvas_2x2_def NewCanvasForRGBA_def Let_def)
  show ?thesis
    using SetMask_checks_size [OF d, of "\<lparr>Pix = replicate 6 0, Rect = \<lparr>Min_pt = (0, 0), Max_pt = (3, 2)\<rparr>\<rparr>"]
      SetMask_checks_size [OF d, of "\<lparr>Pix = replicate 4 255, Rect = \<lparr>Min_pt = (1, 1), Max_pt = (3, 3)\<rparr>\<rparr>"]
      m
    unfolding wh by (simp add: Size_def)
qed

section \<open>Properties of the path programs\<close>

lemma grid_path_Nil: "grid_path []"
  by (simp add: grid_path.simps)

lemma grid_path_line: "t = 0 \<or> t = 1 \<Longrightarrow> on_grid x \<Longrightarrow> on_grid y \<Longrightarrow> grid_path [t, x, y, t]"
  by (simp add: grid_path.simps [of "[t, x, y, t]"] grid_path_Nil)

lemma grid_path_quad:
  "on_grid x1 \<Longrightarrow> on_grid y1 \<Longrightarrow> on_grid x2 \<Longrightarrow> on_grid y2 \<Longrightarrow> grid_path [2, x1, y1, x2, y2, 2]"
  by (simp add: grid_path.simps [of "[2, x1, y1, x2, y2, 2]"] grid_path_Nil)

lemma grid_path_append: "grid_path p \<Longrightarrow> grid_path q \<Longrightarrow> grid_path (p @ q)"
proof (induction p rule: grid_path.induct)
  case (1 p)
  show ?case
  proof (cases "length p = 0")
    case True
    then show ?thesis using "1.prems" by simp
  next
    case False
    note ne = this
    show ?thesis
    proof (cases "p ! 0 = 0 \<or> p ! 0 = 1")
      case True
      from "1.prems"(1) ne True have u: "4 \<le> length p" "on_grid (p ! 1)" "on_grid (p ! 2)"
        "p ! 3 = p ! 0" "grid_path (drop 4 p)"
        by (simp_all add: grid_path.simps [of p])
      have "grid_path (drop 4 p @ q)"
        using "1.IH"(1) [OF ne True u(5) "1.prems"(2)] .
      then show ?thesis
        using u True ne by (simp add: grid_path.simps [of "p @ q"] nth_append)
    next
      case False
      note nl = this
      from "1.prems"(1) ne nl have t: "p ! 0 = 2"
        by (simp add: grid_path.simps [of p] split: if_splits)
      from "1.prems"(1) ne nl t have u: "6 \<le> length p" "on_grid (p ! 1)" "on_grid (p ! 2)"
        "on_grid (p ! 3)" "on_grid (p ! 4)" "p ! 5 = 2" "grid_path (drop 6 p)"
        by (simp_all add: grid_path.simps [of p])
      have "grid_path (drop 6 p @ q)"
        using "1.IH"(2) [OF ne nl t u(7) "1.prems"(2)] .
      then show ?thesis
        using u t ne by (simp add: grid_path.simps [of "p @ q"] nth_append)
    qed
  qed
qed

lemma on_grid_fixed_I: "on_grid (fixed_I i)"
  unfolding on_grid_def fixed_I_def
  by (rule bit_word_eqI) (auto simp add: bit_simps)


lemma on_grid_Fixed: "on_grid (fst (Fixed v))" "on_grid (snd (Fixed v))"
  by (simp_all add: Fixed_def on_grid_fixed_I)

lemma grid_path_Start: "grid_path p \<Longrightarrow> grid_path (Start p (Fixed v))"
  unfolding Start_def by (intro grid_path_append grid_path_line) (simp_all add: on_grid_Fixed)

lemma grid_path_Add1: "grid_path p \<Longrightarrow> grid_path (Add1 p (Fixed v))"
  unfolding Add1_def by (intro grid_path_append grid_path_line) (simp_all add: on_grid_Fixed)

lemma grid_path_Add2: "grid_path p \<Longrightarrow> grid_path (Add2 p (Fixed v) (Fixed w))"
  unfolding Add2_def by (intro grid_path_append grid_path_quad) (simp_all add: on_grid_Fixed)

lemma MoveTo_grid: "grid_canvas c \<Longrightarrow> MoveTo c x y = Inr c' \<Longrightarrow> grid_canvas c'"
  by (auto simp add: MoveTo_def grid_canvas_def Let_def grid_path_Start grid_path_Add1
      split: if_splits option.splits prod.splits)

lemma LineTo_grid: "grid_canvas c \<Longrightarrow> LineTo c x y = Inr c' \<Longrightarrow> grid_canvas c'"
proof (cases "hasCurrent c")
  case False
  assume "grid_canvas c" "LineTo c x y = Inr c'"
  with False show ?thesis
    by (simp add: LineTo_def MoveTo_grid)
next
  case True
  assume "grid_canvas c" "LineTo c x y = Inr c'"
  with True show ?thesis
    by (auto simp add: LineTo_def grid_canvas_def Let_def grid_path_Add1 split: prod.splits)
qed

lemma implicit_MoveTo_grid:
  "grid_canvas c \<Longrightarrow> (if \<not> hasCurrent c then MoveTo c x y else Inr c) = Inr c1 \<Longrightarrow> grid_canvas c1"
  by (auto split: if_splits dest: MoveTo_grid)

lemma QuadraticTo_grid:
  assumes "grid_canvas c" and "QuadraticTo c x1 y1 x2 y2 = Inr c'"
  shows "grid_canvas c'"
proof -
  from assms(2) obtain c1 where c1: "(if \<not> hasCurrent c then MoveTo c x1 y1 else Inr c) = Inr c1"
    by (cases "if \<not> hasCurrent c then MoveTo c x1 y1 else Inr c") (simp_all add: QuadraticTo_def)
  have g: "grid_canvas c1"
    using implicit_MoveTo_grid [OF assms(1) c1] .
  from assms(2) show ?thesis
    unfolding QuadraticTo_def c1 using g
    by (auto simp add: grid_canvas_def Let_def grid_path_Add2 split: prod.splits)
qed

lemma CubicTo_loop_grid: "grid_canvas c \<Longrightarrow> grid_canvas (CubicTo_loop points previous c)"
proof (induction points arbitrary: previous c)
  case Nil
  then show ?case by simp
next
  case (Cons p points)
  have "grid_canvas (c\<lparr>strokePath := Add1 (strokePath c) (Fixed p),
      fillPath := Add1 (fillPath c) (Fixed p), current := Some p\<rparr>)"
    using Cons.prems by (simp add: grid_canvas_def grid_path_Add1)
  then show ?case
    using Cons.IH Cons.prems by (simp add: Let_def)
qed

lemma CubicTo_grid:
  assumes "grid_canvas c" and "CubicTo rt c x1 y1 x2 y2 x3 y3 = Inr c'"
  shows "grid_canvas c'"
proof -
  from assms(2) obtain c1 where c1: "(if \<not> hasCurrent c then MoveTo c x1 y1 else Inr c) = Inr c1"
    by (cases "if \<not> hasCurrent c then MoveTo c x1 y1 else Inr c") (simp_all add: CubicTo_def)
  have g: "grid_canvas c1"
    using implicit_MoveTo_grid [OF assms(1) c1] .
  from assms(2) show ?thesis
    unfolding CubicTo_def c1 using g
    by (auto simp add: Let_def CubicTo_loop_grid split: prod.splits option.splits sum.splits)
qed

lemma ClosePath_grid: "grid_canvas c \<Longrightarrow> ClosePath c = Inr c' \<Longrightarrow> grid_canvas c'"
  by (auto simp add: ClosePath_def grid_canvas_def grid_path_Add1 split: if_splits option.splits)

lemma NewSubPath_grid: "grid_canvas c \<Longrightarrow> NewSubPath c = Inr c' \<Longrightarrow> grid_canvas c'"
  by (auto simp add: NewSubPath_def grid_canvas_def grid_path_Add1 split: if_splits option.splits)

lemma ClearPath_grid: "grid_canvas (ClearPath c)"
  by (simp add: ClearPath_def grid_canvas_def Clear_def grid_path_Nil)

lemma NewCanvasForRGBA_grid: "grid_canvas (NewCanvasForRGBA i r face)"
  by (simp add: NewCanvasForRGBA_def grid_canvas_def Let_def grid_path_Nil)


lemma cursor_ok_set: "hasCurrent c \<Longrightarrow> cursor_ok c = (start c \<noteq> None \<and> current c \<noteq> None)"
  by (simp add: cursor_ok_def)

lemma MoveTo_returns:
  assumes "cursor_ok c"
  shows "\<exists>c'. MoveTo c x y = Inr c' \<and> hasCurrent c' \<and> start c' \<noteq> None \<and> current c' \<noteq> None"
proof (cases "hasCurrent c")
  case False
  then show ?thesis
    by (simp add: MoveTo_def Canvas_TransformPoint_def TransformPoint_def Let_def)
next
  case True
  with assms obtain s where "start c = Some s"
    by (auto simp add: cursor_ok_def)
  with True show ?thesis
    by (simp add: MoveTo_def Canvas_TransformPoint_def TransformPoint_def Let_def)
qed

lemma LineTo_returns:
  assumes "cursor_ok c"
  shows "\<exists>c'. LineTo c x y = Inr c' \<and> hasCurrent c' \<and> start c' \<noteq> None \<and> current c' \<noteq> None"
proof (cases "hasCurrent c")
  case False
  then show ?thesis
    using MoveTo_returns [OF assms] by (simp add: LineTo_def)
next
  case True
  with assms obtain s where "start c = Some s"
    by (auto simp add: cursor_ok_def)
  with True show ?thesis
    by (simp add: LineTo_def Canvas_TransformPoint_def TransformPoint_def Let_def)
qed

lemma implicit_MoveTo_returns:
  assumes "cursor_ok c"
  shows "\<exists>c1. (if \<not> hasCurrent c then MoveTo c x y else Inr c) = Inr c1
    \<and> hasCurrent c1 \<and> start c1 \<noteq> None \<and> current c1 \<noteq> None"
proof (cases "hasCurrent c")
  case False
  then show ?thesis
    using MoveTo_returns [OF assms, of x y] by simp
next
  case True
  then show ?thesis
    using assms by (simp add: cursor_ok_def)
qed

lemma QuadraticTo_returns:
  assumes "cursor_ok c"
  shows "\<exists>c'. QuadraticTo c x1 y1 x2 y2 = Inr c' \<and> hasCurrent c' \<and> start c' \<noteq> None \<and> current c' \<noteq> None"
proof -
  from implicit_MoveTo_returns [OF assms, of x1 y1]
  obtain c1 where c1: "(if \<not> hasCurrent c then MoveTo c x1 y1 else Inr c) = Inr c1"
    and ok: "hasCurrent c1" "start c1 \<noteq> None"
    by blast
  from ok show ?thesis
    unfolding QuadraticTo_def c1
    by (simp add: Canvas_TransformPoint_def TransformPoint_def Let_def)
qed

lemma CubicTo_loop_cursor:
  "hasCurrent c \<Longrightarrow> start c \<noteq> None \<Longrightarrow> current c \<noteq> None \<Longrightarrow>
     hasCurrent (CubicTo_loop points previous c) \<and> start (CubicTo_loop points previous c) \<noteq> None
     \<and> current (CubicTo_loop points previous c) \<noteq> None"
proof (induction points arbitrary: previous c)
  case Nil
  then show ?case by simp
next
  case (Cons p points)
  let ?c = "c\<lparr>strokePath := Add1 (strokePath c) (Fixed p),
      fillPath := Add1 (fillPath c) (Fixed p), current := Some p\<rparr>"
  have "hasCurrent ?c" "start ?c \<noteq> None" "current ?c \<noteq> None"
    using Cons.prems by simp_all
  then show ?case
    using Cons.IH Cons.prems by (simp add: Let_def)
qed

text \<open>
  \<open>CubicTo\<close> does not panic on the cursor either; it fails only when its flattener cannot
  allocate the points of the curve.
\<close>

lemma CubicTo_returns:
  assumes "cursor_ok c"
  shows "(\<exists>c'. CubicTo rt c x1 y1 x2 y2 x3 y3 = Inr c'
            \<and> hasCurrent c' \<and> start c' \<noteq> None \<and> current c' \<noteq> None)
    \<or> CubicTo rt c x1 y1 x2 y2 x3 y3 = Inl (Panic ''makeslice: len out of range'')"
proof -
  from implicit_MoveTo_returns [OF assms, of x1 y1]
  obtain c1 cur where c1: "(if \<not> hasCurrent c then MoveTo c x1 y1 else Inr c) = Inr c1"
    and ok: "hasCurrent c1" "start c1 \<noteq> None" "current c1 \<noteq> None" and cur: "current c1 = Some cur"
    by blast
  define bz where "bz = CreateCubicBezier rt (X cur) (Y cur)
    (fst (Canvas_TransformPoint c1 x1 y1)) (snd (Canvas_TransformPoint c1 x1 y1))
    (fst (Canvas_TransformPoint c1 x2 y2)) (snd (Canvas_TransformPoint c1 x2 y2))
    (fst (Canvas_TransformPoint c1 x3 y3)) (snd (Canvas_TransformPoint c1 x3 y3))"
  have eq: "CubicTo rt c x1 y1 x2 y2 x3 y3 =
      (case bz of Inl e \<Rightarrow> Inl e
       | Inr points \<Rightarrow> Inr (CubicTo_loop (drop 1 points) (Fixed cur) c1))"
    unfolding CubicTo_def c1 bz_def using cur by (simp add: Let_def split_beta split: sum.splits)
  show ?thesis
  proof (cases bz)
    case (Inl e)
    then have "e = Panic ''makeslice: len out of range''"
      unfolding bz_def by (rule CreateCubicBezier_panics)
    then show ?thesis
      using Inl by (simp add: eq)
  next
    case (Inr points)
    then show ?thesis
      using CubicTo_loop_cursor [OF ok] by (simp add: eq)
  qed
qed

lemma ClosePath_returns:
  assumes "cursor_ok c"
  shows "\<exists>c'. ClosePath c = Inr c' \<and> cursor_ok c'"
  using assms by (cases "hasCurrent c") (auto simp add: ClosePath_def cursor_ok_def)

lemma NewSubPath_returns:
  assumes "cursor_ok c"
  shows "\<exists>c'. NewSubPath c = Inr c' \<and> cursor_ok c'"
  using assms by (cases "hasCurrent c") (auto simp add: NewSubPath_def cursor_ok_def)

lemma fixed_I_of_int: "fixed_I (word_of_int k) = word_of_int (64 * k)"
proof -
  have "fixed_I (word_of_int k) = (ucast (word_of_int (k * 64) :: 64 word) :: 32 word)"
    by (simp add: fixed_I_def push_bit_eq_mult)
  also have "\<dots> = word_of_int (take_bit 64 (k * 64))"
    by (simp only: ucast_eq uint_word_of_int_eq) simp
  also have "\<dots> = word_of_int (k * 64)"
    by (simp only: word_of_int_eq_iff) (simp add: take_bit_take_bit)
  finally show ?thesis by (simp add: mult.commute)
qed

lemma Fixed_truncates:
  "Fixed v = (word_of_int (64 * float_to_int (X v)), word_of_int (64 * float_to_int (Y v)))"
  by (simp add: Fixed_def go_int_def fixed_I_of_int)

lemma float_to_int_toward_zero:
  "\<bar>real_of_int (float_to_int x)\<bar> \<le> \<bar>x\<bar> \<and> \<bar>x\<bar> < \<bar>real_of_int (float_to_int x)\<bar> + 1"
  unfolding float_to_int_def by (auto; linarith)

text \<open>
  Claim C10. \<open>Fixed\<close> truncates each coordinate toward zero and multiplies by 64, so
  both components lie on the whole-pixel grid. A new canvas has both path programs on the
  grid, and \<open>MoveTo\<close>, \<open>LineTo\<close>, \<open>QuadraticTo\<close>, \<open>CubicTo\<close>, \<open>ClosePath\<close>,
  \<open>NewSubPath\<close> and \<open>ClearPath\<close> return (they do not panic on the cursor of a canvas made
  this way) and leave every coordinate of both path programs on the grid. \<open>CubicTo\<close>, the
  one operation that allocates, returns in the same way unless \<^verbatim>\<open>make\<close> panics in its
  flattener.
\<close>

theorem path_coordinates_on_pixel_grid:
  "grid_canvas (NewCanvasForRGBA i r face) \<and> cursor_ok (NewCanvasForRGBA i r face)
   \<and> (grid_canvas c \<and> cursor_ok c \<longrightarrow>
        (\<exists>c'. MoveTo c x y = Inr c' \<and> grid_canvas c' \<and> cursor_ok c')
      \<and> (\<exists>c'. LineTo c x y = Inr c' \<and> grid_canvas c' \<and> cursor_ok c')
      \<and> (\<exists>c'. QuadraticTo c x1 y1 x2 y2 = Inr c' \<and> grid_canvas c' \<and> cursor_ok c')
      \<and> ((\<exists>c'. CubicTo rt c x1 y1 x2 y2 x3 y3 = Inr c' \<and> grid_canvas c' \<and> cursor_ok c')
          \<or> CubicTo rt c x1 y1 x2 y2 x3 y3 = Inl (Panic ''makeslice: len out of range''))
      \<and> (\<exists>c'. ClosePath c = Inr c' \<and> grid_canvas c' \<and> cursor_ok c')
      \<and> (\<exists>c'. NewSubPath c = Inr c' \<and> grid_canvas c' \<and> cursor_ok c')
      \<and> grid_canvas (ClearPath c) \<and> cursor_ok (ClearPath c))
   \<and> on_grid (fst (Fixed v)) \<and> on_grid (snd (Fixed v))
   \<and> Fixed v = (word_of_int (64 * float_to_int (X v)), word_of_int (64 * float_to_int (Y v)))
   \<and> \<bar>real_of_int (float_to_int t)\<bar> \<le> \<bar>t\<bar> \<and> \<bar>t\<bar> < \<bar>real_of_int (float_to_int t)\<bar> + 1"
proof -
  have new: "grid_canvas (NewCanvasForRGBA i r face) \<and> cursor_ok (NewCanvasForRGBA i r face)"
    by (simp add: NewCanvasForRGBA_grid) (simp add: cursor_ok_def NewCanvasForRGBA_def Let_def)
  have ops: "(\<exists>c'. MoveTo c x y = Inr c' \<and> grid_canvas c' \<and> cursor_ok c')
      \<and> (\<exists>c'. LineTo c x y = Inr c' \<and> grid_canvas c' \<and> cursor_ok c')
      \<and> (\<exists>c'. QuadraticTo c x1 y1 x2 y2 = Inr c' \<and> grid_canvas c' \<and> cursor_ok c')
      \<and> ((\<exists>c'. CubicTo rt c x1 y1 x2 y2 x3 y3 = Inr c' \<and> grid_canvas c' \<and> cursor_ok c')
          \<or> CubicTo rt c x1 y1 x2 y2 x3 y3 = Inl (Panic ''makeslice: len out of range''))
      \<and> (\<exists>c'. ClosePath c = Inr c' \<and> grid_canvas c' \<and> cursor_ok c')
      \<and> (\<exists>c'. NewSubPath c = Inr c' \<and> grid_canvas c' \<and> cursor_ok c')
      \<and> grid_canvas (ClearPath c) \<and> cursor_ok (ClearPath c)"
    if g: "grid_canvas c" and k: "cursor_ok c"
  proof (intro conjI)
    show "\<exists>c'. MoveTo c x y = Inr c' \<and> grid_canvas c' \<and> cursor_ok c'"
      using MoveTo_returns [OF k, of x y] MoveTo_grid [OF g] cursor_ok_set by blast
    show "\<exists>c'. LineTo c x y = Inr c' \<and> grid_canvas c' \<and> cursor_ok c'"
      using LineTo_returns [OF k, of x y] LineTo_grid [OF g] cursor_ok_set by blast
    show "\<exists>c'. QuadraticTo c x1 y1 x2 y2 = Inr c' \<and> grid_canvas c' \<and> cursor_ok c'"
      using QuadraticTo_returns [OF k, of x1 y1 x2 y2] QuadraticTo_grid [OF g] cursor_ok_set by blast
    show "(\<exists>c'. CubicTo rt c x1 y1 x2 y2 x3 y3 = Inr c' \<and> grid_canvas c' \<and> cursor_ok c')
        \<or> CubicTo rt c x1 y1 x2 y2 x3 y3 = Inl (Panic ''makeslice: len out of range'')"
      using CubicTo_returns [OF k, of rt x1 y1 x2 y2 x3 y3] CubicTo_grid [OF g] cursor_ok_set
      by blast
    show "\<exists>c'. ClosePath c = Inr c' \<and> grid_canvas c' \<and> cursor_ok c'"
      using ClosePath_returns [OF k] ClosePath_grid [OF g] by blast
    show "\<exists>c'. NewSubPath c = Inr c' \<and> grid_canvas c' \<and> cursor_ok c'"
      using NewSubPath_returns [OF k] NewSubPath_grid [OF g] by blast
    show "grid_canvas (ClearPath c)"
      by (rule ClearPath_grid)
    show "cursor_ok (ClearPath c)"
      by (simp add: ClearPath_def cursor_ok_def)
  qed
  show ?thesis
    using new ops on_grid_Fixed [of v] Fixed_truncates [of v] float_to_int_toward_zero [of t]
    by blast
qed

theorem path_coordinates_on_pixel_grid_witness:
  "grid_canvas canvas_2x2 \<and> cursor_ok canvas_2x2
   \<and> (\<exists>c'. MoveTo canvas_2x2 (3 / 2) (27 / 10) = Inr c' \<and> grid_canvas c' \<and> cursor_ok c'
          \<and> fillPath c' = [0, 64, 128, 0] \<and> strokePath c' = [0, 64, 128, 0])
   \<and> (\<exists>c'. CubicTo runtime_amd64 canvas_2x2 0 0 3 0 6 0 = Inr c' \<and> grid_canvas c' \<and> cursor_ok c')
   \<and> Fixed (NewVector (- 3 / 2) (5 / 2)) = (- 64, 128)"
proof -
  note t = path_coordinates_on_pixel_grid [where i = image_2x2 and r = 0 and face = 0
      and c = canvas_2x2 and x = "3 / 2" and y = "27 / 10" and ?x1.0 = 0 and ?y1.0 = 0
      and ?x2.0 = 3 and ?y2.0 = 0 and ?x3.0 = 6 and ?y3.0 = 0 and rt = runtime_amd64
      and v = "NewVector (- 3 / 2) (5 / 2)" and t = 0, folded canvas_2x2_def]
  have inv: "grid_canvas canvas_2x2 \<and> cursor_ok canvas_2x2"
    using t by blast
  have m: "MoveTo canvas_2x2 (3 / 2) (27 / 10) =
      Inr (canvas_2x2\<lparr>strokePath := [0, 64, 128, 0], fillPath := [0, 64, 128, 0],
        start := Some (NewVector (3 / 2) (27 / 10)), current := Some (NewVector (3 / 2) (27 / 10)),
        hasCurrent := True\<rparr>)"
    by (simp add: MoveTo_def canvas_2x2_def NewCanvasForRGBA_def Let_def Canvas_TransformPoint_def
        TransformPoint_def Identity_def Start_def Fixed_def NewVector_def go_int_def
        float_to_int_def fixed_I_def)
  have f: "Fixed (NewVector (- 3 / 2) (5 / 2)) = (- 64, 128)"
    using t by (simp add: NewVector_def float_to_int_def)
  obtain ps where bz: "CreateCubicBezier runtime_amd64 0 0 0 0 3 0 6 0 = Inr ps"
    using cubic_eq [of 0 0 0 0 3 0 6 0 runtime_amd64]
    by (simp add: Distance_on_axis point_count_def runtime_amd64_def)
  have "CubicTo runtime_amd64 canvas_2x2 0 0 3 0 6 0 \<noteq> Inl (Panic ''makeslice: len out of range'')"
    by (simp add: CubicTo_def MoveTo_def canvas_2x2_def NewCanvasForRGBA_def Let_def
        Canvas_TransformPoint_def TransformPoint_def Identity_def NewVector_def bz)
  then have c: "\<exists>c'. CubicTo runtime_amd64 canvas_2x2 0 0 3 0 6 0 = Inr c'
      \<and> grid_canvas c' \<and> cursor_ok c'"
    using t inv by blast
  show ?thesis
    using t inv f c unfolding m by simp
qed

section \<open>Properties of the conversion to a rasterizer path\<close>

lemma sint_diff_small:
  fixes a b :: "32 word"
  assumes "- (2 ^ 29) \<le> sint a" "sint a < 2 ^ 29" "- (2 ^ 29) \<le> sint b" "sint b < 2 ^ 29"
  shows "sint (a - b) = sint a - sint b"
proof -
  have "sint (a - b) = signed_take_bit 31 (sint a - sint b)"
    by (simp add: sint_word_ariths)
  also have "\<dots> = sint a - sint b"
    using assms by (intro signed_take_bit_int_eq_self) simp_all
  finally show ?thesis .
qed

lemma sint_neg_small:
  fixes a :: "32 word"
  assumes "- (2 ^ 30) < sint a" "sint a < 2 ^ 30"
  shows "sint (- a) = - sint a"
proof -
  have "sint (- a) = signed_take_bit 31 (- sint a)"
    by (simp add: sint_word_ariths)
  also have "\<dots> = - sint a"
    using assms by (intro signed_take_bit_int_eq_self) simp_all
  finally show ?thesis .
qed

lemma sint_add_small:
  fixes a b :: "32 word"
  assumes "0 \<le> sint a" "sint a < 2 ^ 30" "0 \<le> sint b" "sint b < 2 ^ 30"
  shows "sint (a + b) = sint a + sint b"
proof -
  have "sint (a + b) = signed_take_bit 31 (sint a + sint b)"
    by (simp add: sint_word_ariths)
  also have "\<dots> = sint a + sint b"
    using assms by (intro signed_take_bit_int_eq_self) simp_all
  finally show ?thesis .
qed

lemma on_grid_sint:
  fixes w :: "32 word"
  assumes "on_grid w"
  shows "64 dvd sint w"
proof -
  have nb: "\<not> bit w n" if "n < 6" for n
  proof -
    have "bit (take_bit 6 w) n = bit w n"
      using that by (simp add: bit_take_bit_iff)
    then show ?thesis
      using assms by (simp add: on_grid_def)
  qed
  have "take_bit 6 (sint w) = 0"
    by (rule bit_eqI) (auto simp add: bit_take_bit_iff bit_sint_iff nb min_def)
  then show ?thesis
    by (simp add: take_bit_eq_0_iff)
qed

lemma manhattan_in_range:
  fixes fx fy px py :: "32 word"
  assumes g: "on_grid fx" "on_grid fy" "on_grid px" "on_grid py"
    and bx: "- (2 ^ 29) \<le> sint fx" "sint fx < 2 ^ 29" "- (2 ^ 29) \<le> sint px" "sint px < 2 ^ 29"
    and by': "- (2 ^ 29) \<le> sint fy" "sint fy < 2 ^ 29" "- (2 ^ 29) \<le> sint py" "sint py < 2 ^ 29"
  shows "8 <s (if fx - px <s 0 then - (fx - px) else fx - px)
              + (if fy - py <s 0 then - (fy - py) else fy - py)
         \<longleftrightarrow> (fx, fy) \<noteq> (px, py)"
proof -
  let ?dx = "if fx - px <s 0 then - (fx - px) else fx - px"
  let ?dy = "if fy - py <s 0 then - (fy - py) else fy - py"
  have sx: "sint (fx - px) = sint fx - sint px"
    by (rule sint_diff_small [OF bx])
  have sy: "sint (fy - py) = sint fy - sint py"
    by (rule sint_diff_small [OF by'])
  have ax: "sint ?dx = \<bar>sint fx - sint px\<bar>"
    using bx sx sint_neg_small [of "fx - px"] by (simp add: word_sless_alt)
  have ay: "sint ?dy = \<bar>sint fy - sint py\<bar>"
    using by' sy sint_neg_small [of "fy - py"] by (simp add: word_sless_alt)
  have "sint (?dx + ?dy) = sint ?dx + sint ?dy"
    using bx by' by (intro sint_add_small) (simp_all only: ax ay, simp_all)
  then have sum: "sint (?dx + ?dy) = \<bar>sint fx - sint px\<bar> + \<bar>sint fy - sint py\<bar>"
    by (simp only: ax ay)
  have dx: "64 dvd sint fx - sint px" and dy: "64 dvd sint fy - sint py"
    using g by (simp_all add: on_grid_sint dvd_diff)
  obtain k l where k: "sint fx - sint px = 64 * k" and l: "sint fy - sint py = 64 * l"
    using dx dy by (auto elim!: dvdE)
  have "8 < \<bar>64 * k\<bar> + \<bar>64 * l\<bar> \<longleftrightarrow> \<not> (k = 0 \<and> l = 0)"
    by arith
  then have "8 < \<bar>sint fx - sint px\<bar> + \<bar>sint fy - sint py\<bar>
      \<longleftrightarrow> \<not> (sint fx = sint px \<and> sint fy = sint py)"
    using k l by auto
  moreover have "fx = px \<longleftrightarrow> sint fx = sint px" "fy = py \<longleftrightarrow> sint fy = sint py"
    by (auto intro: signed_word_eqI)
  moreover have "8 <s w \<longleftrightarrow> 8 < sint w" for w :: "32 word"
    by (simp add: word_sless_alt)
  ultimately show ?thesis
    by (simp only: sum prod.inject)
qed

text \<open>
  Near the origin the test \<^verbatim>\<open>dx+dy > 8\<close> of \<open>rasterPath\<close> is the test for a
  distinct fixed point: a point after the first is appended unless its fixed point
  equals the previous one.
\<close>

lemma rasterPath_loop_in_range:
  assumes "0 < i" and "near_origin (Fixed point)" and "near_origin previous"
    and "on_grid (fst previous)" and "on_grid (snd previous)"
  shows "rasterPath_loop (point # path) i previous result =
     rasterPath_loop path (i + 1) (Fixed point)
       (if Fixed point \<noteq> previous then Add1 result (Fixed point) else result)"
proof -
  have "8 <s (if fst (Fixed point) - fst previous <s 0 then - (fst (Fixed point) - fst previous)
              else fst (Fixed point) - fst previous)
           + (if snd (Fixed point) - snd previous <s 0 then - (snd (Fixed point) - snd previous)
              else snd (Fixed point) - snd previous)
      \<longleftrightarrow> (fst (Fixed point), snd (Fixed point)) \<noteq> (fst previous, snd previous)"
    using assms(2-5) unfolding near_origin_def
    by (intro manhattan_in_range) (simp_all add: on_grid_Fixed)
  then show ?thesis
    using assms(1) by (simp add: Let_def prod_eq_iff)
qed

lemma Fixed_origin: "Fixed (NewVector 0 0) = (0, 0)"
  by (simp add: Fixed_truncates NewVector_def float_to_int_def)

lemma Fixed_far: "Fixed (NewVector 16777216 16777216) = (1073741824, 1073741824)"
  by (simp add: Fixed_truncates NewVector_def float_to_int_def)

text \<open>
  Claim C5 does not hold of \<open>rasterPath\<close>. The polyline from \<open>(0, 0)\<close> to
  \<open>(16777216, 16777216)\<close> has two distinct fixed points, \<open>(0, 0)\<close> and
  \<open>(2\<^sup>3\<^sup>0, 2\<^sup>3\<^sup>0)\<close>, but the sum \<open>dx + dy = 2\<^sup>3\<^sup>1\<close> wraps to a negative \<^verbatim>\<open>int32\<close>, the
  test \<^verbatim>\<open>dx+dy > 8\<close> fails and the second point is dropped: the path is the
  \<open>Start\<close> command alone.
\<close>

theorem rasterPath_drops_distant_point:
  "rasterPath [[NewVector 0 0, NewVector 16777216 16777216]] = Start [] (Fixed (NewVector 0 0))
   \<and> Fixed (NewVector 16777216 16777216) \<noteq> Fixed (NewVector 0 0)"
  by (simp add: rasterPath_def Fixed_origin Fixed_far Start_def Add1_def word_sless_alt)

lemma CubicTo_loop_drops_only_duplicates:
  "CubicTo_loop (p # points) previous c =
     (if Fixed p = previous then CubicTo_loop points previous c
      else CubicTo_loop points (Fixed p)
             (c\<lparr>strokePath := strokePath c @ [1, fst (Fixed p), snd (Fixed p), 1],
                fillPath := fillPath c @ [1, fst (Fixed p), snd (Fixed p), 1],
                current := Some p\<rparr>))"
  by (simp add: Let_def Add1_def)

section \<open>Properties of stroke and fill\<close>

lemma stroke_result:
  assumes "stroke fuel rt Unfix Fix c r painter = Some (Inr r')"
  shows "\<exists>path. r' = r\<lparr>UseNonZeroWinding := True,
      added := [AddedStroke path (Fix (lineWidth c)) (capper c) (joiner c)],
      rasterized := rasterized r @
        [(True, [AddedStroke path (Fix (lineWidth c)) (capper c) (joiner c)], painter)]\<rparr>"
  using assms
  by (auto simp add: stroke_def Let_def Rasterizer_Clear_def AddStroke_def Rasterize_def
      split: if_splits sum.splits option.splits)

lemma stroke_ignores_fillRule:
  "stroke fuel rt Unfix Fix (c\<lparr>fillRule := fr\<rparr>) r painter = stroke fuel rt Unfix Fix c r painter"
  by (simp add: stroke_def capper_def joiner_def
      cong: if_cong option.case_cong sum.case_cong)

lemma fill_result:
  assumes "fill c r painter = Inr r'"
  shows "\<exists>path. r' = r\<lparr>UseNonZeroWinding := (fillRule c = FillRuleWinding),
      added := [AddedPath path],
      rasterized := rasterized r @ [(fillRule c = FillRuleWinding, [AddedPath path], painter)]\<rparr>"
  using assms
  by (auto simp add: fill_def Let_def Rasterizer_Clear_def AddPath_def Rasterize_def
      split: if_splits sum.splits option.splits)

lemma fill_returns:
  assumes "cursor_ok c"
  shows "\<exists>r'. fill c r painter = Inr r'"
  using assms
  by (cases "hasCurrent c") (auto simp add: fill_def cursor_ok_def Let_def)


text \<open>
  Decoding a well-formed path program fails in one way only: in the \<^verbatim>\<open>make\<close> of a
  curve too long to allocate.
\<close>

lemma flattenPath_loop_returns:
  "grid_path p \<Longrightarrow>
     (\<exists>ps. flattenPath_loop rt Unfix p path cx cy result = Inr ps)
     \<or> flattenPath_loop rt Unfix p path cx cy result = Inl (Panic ''makeslice: len out of range'')"
proof (induction p arbitrary: path cx cy result rule: grid_path.induct)
  case (1 p)
  show ?case
  proof (cases "length p = 0")
    case True
    then show ?thesis
      by (subst (1 2) flattenPath_loop.simps) simp
  next
    case False
    note ne = this
    show ?thesis
    proof (cases "p ! 0 = 0 \<or> p ! 0 = 1")
      case True
      from "1.prems" ne True have u: "4 \<le> length p" "grid_path (drop 4 p)"
        by (simp_all add: grid_path.simps [of p])
      note ih = "1.IH"(1) [OF ne True u(2)]
      from True show ?thesis
      proof
        assume t: "p ! 0 = 0"
        show ?thesis
          using ne t u(1) ih by (subst (1 2) flattenPath_loop.simps) (simp add: Let_def)
      next
        assume t: "p ! 0 = 1"
        show ?thesis
          using ne t u(1) ih by (subst (1 2) flattenPath_loop.simps) (simp add: Let_def)
      qed
    next
      case False
      note nl = this
      from "1.prems" ne nl have t: "p ! 0 = 2"
        by (simp add: grid_path.simps [of p] split: if_splits)
      from "1.prems" ne nl t have u: "6 \<le> length p" "grid_path (drop 6 p)"
        by (simp_all add: grid_path.simps [of p])
      note ih = "1.IH"(2) [OF ne nl t u(2)]
      define bz where
        "bz = CreateQuadraticBezier rt cx cy (Unfix (p ! 1)) (Unfix (p ! 2)) (Unfix (p ! 3)) (Unfix (p ! 4))"
      have eq: "flattenPath_loop rt Unfix p path cx cy result =
          (case bz of Inl e \<Rightarrow> Inl e
           | Inr points \<Rightarrow>
               flattenPath_loop rt Unfix (drop 6 p) (path @ points) (Unfix (p ! 3)) (Unfix (p ! 4)) result)"
        using ne t u(1) unfolding bz_def
        by (subst flattenPath_loop.simps) (simp add: Let_def split: sum.splits)
      show ?thesis
      proof (cases bz)
        case (Inl e)
        then have "e = Panic ''makeslice: len out of range''"
          unfolding bz_def by (rule CreateQuadraticBezier_panics)
        then show ?thesis
          using Inl by (simp add: eq)
      next
        case (Inr points)
        then show ?thesis
          using ih [of "path @ points" "Unfix (p ! 3)" "Unfix (p ! 4)" result] by (simp add: eq)
      qed
    qed
  qed
qed

lemma flattenPath_returns:
  "grid_path p \<Longrightarrow>
     (\<exists>ps. flattenPath rt Unfix p = Inr ps)
     \<or> flattenPath rt Unfix p = Inl (Panic ''makeslice: len out of range'')"
  unfolding flattenPath_def by (rule flattenPath_loop_returns)

text \<open>
  It does not fail at all when the runtime can allocate every curve between points that
  \<^verbatim>\<open>Unfix\<close> can give: with coordinates within \<open>B\<close> of zero, a control polygon of three
  points is no longer than \<open>8 B\<close>.
\<close>

lemma Hypot_le: "Hypot a b \<le> \<bar>a\<bar> + \<bar>b\<bar>"
  using sqrt_sum_squares_le_sum_abs [of a b] by (simp add: Hypot_def power2_eq_square)

lemma CreateQuadraticBezier_returns:
  assumes "\<bar>x0\<bar> \<le> B" "\<bar>y0\<bar> \<le> B" "\<bar>x1\<bar> \<le> B" "\<bar>y1\<bar> \<le> B" "\<bar>x2\<bar> \<le> B" "\<bar>y2\<bar> \<le> B"
    and m: "4 \<le> max_len rt" "8 * B + 1 \<le> real (max_len rt)" "8 * B + 1 \<le> 2 ^ 63"
  shows "\<exists>ps. CreateQuadraticBezier rt x0 y0 x1 y1 x2 y2 = Inr ps"
proof -
  define l where "l = Distance (NewVector x0 y0) (NewVector x1 y1)
    + Distance (NewVector x1 y1) (NewVector x2 y2)"
  have "l = Hypot (x1 - x0) (y1 - y0) + Hypot (x2 - x1) (y2 - y1)"
    by (simp add: l_def quad_length)
  also have "\<dots> \<le> (\<bar>x1 - x0\<bar> + \<bar>y1 - y0\<bar>) + (\<bar>x2 - x1\<bar> + \<bar>y2 - y1\<bar>)"
    by (intro add_mono Hypot_le)
  also have "\<dots> \<le> 8 * B"
    using assms(1-6) by linarith
  finally have l: "l \<le> 8 * B" .
  have r: "real_of_int (round l) \<le> l + 1 / 2"
    by (rule of_int_round_le)
  have "real_of_int (round l) < 2 ^ 63"
    using r l m(3) by linarith
  then have r63: "round l < 2 ^ 63"
    by (metis of_int_less_iff of_int_numeral of_int_power)
  have "real_of_int (round l) \<le> real (max_len rt)"
    using r l m(2) by linarith
  then have "round l \<le> int (max_len rt)"
    by (metis of_int_le_iff of_int_of_nat_eq)
  then have "point_count l \<le> max_len rt"
    using m(1) by (simp add: point_count_def)
  then show ?thesis
    using quad_eq [of x0 y0 x1 y1 x2 y2 rt] r63 by (simp add: l_def)
qed

lemma flattenPath_loop_returns_bounded:
  assumes b: "\<forall>w. \<bar>Unfix w\<bar> \<le> B"
    and m: "4 \<le> max_len rt" "8 * B + 1 \<le> real (max_len rt)" "8 * B + 1 \<le> 2 ^ 63"
  shows "grid_path p \<Longrightarrow> \<bar>cx\<bar> \<le> B \<Longrightarrow> \<bar>cy\<bar> \<le> B \<Longrightarrow>
     \<exists>ps. flattenPath_loop rt Unfix p path cx cy result = Inr ps"
proof (induction p arbitrary: path cx cy result rule: grid_path.induct)
  case (1 p)
  note bx = b [rule_format]
  show ?case
  proof (cases "length p = 0")
    case True
    then show ?thesis
      by (subst flattenPath_loop.simps) simp
  next
    case False
    note ne = this
    show ?thesis
    proof (cases "p ! 0 = 0 \<or> p ! 0 = 1")
      case True
      from "1.prems"(1) ne True have u: "4 \<le> length p" "grid_path (drop 4 p)"
        by (simp_all add: grid_path.simps [of p])
      note ih = "1.IH"(1) [OF ne True u(2) bx bx]
      from True show ?thesis
      proof
        assume t: "p ! 0 = 0"
        show ?thesis
          using ne t u(1) ih by (subst flattenPath_loop.simps) (simp add: Let_def)
      next
        assume t: "p ! 0 = 1"
        show ?thesis
          using ne t u(1) ih by (subst flattenPath_loop.simps) (simp add: Let_def)
      qed
    next
      case False
      note nl = this
      from "1.prems"(1) ne nl have t: "p ! 0 = 2"
        by (simp add: grid_path.simps [of p] split: if_splits)
      from "1.prems"(1) ne nl t have u: "6 \<le> length p" "grid_path (drop 6 p)"
        by (simp_all add: grid_path.simps [of p])
      note ih = "1.IH"(2) [OF ne nl t u(2) bx bx]
      from CreateQuadraticBezier_returns [OF "1.prems"(2,3) bx bx bx bx m]
      obtain points where bz: "CreateQuadraticBezier rt cx cy (Unfix (p ! 1)) (Unfix (p ! 2))
          (Unfix (p ! 3)) (Unfix (p ! 4)) = Inr points"
        by blast
      have "flattenPath_loop rt Unfix p path cx cy result =
          flattenPath_loop rt Unfix (drop 6 p) (path @ points) (Unfix (p ! 3)) (Unfix (p ! 4)) result"
        using ne t u(1) bz
        by (subst flattenPath_loop.simps) (simp add: Let_def split: sum.splits)
      then show ?thesis
        using ih [of "path @ points" "p ! 3" "p ! 4" result] by simp
    qed
  qed
qed

lemma flattenPath_returns_bounded:
  assumes "\<forall>w. \<bar>Unfix w\<bar> \<le> B"
    and "4 \<le> max_len rt" "8 * B + 1 \<le> real (max_len rt)" "8 * B + 1 \<le> 2 ^ 63"
    and "grid_path p"
  shows "\<exists>ps. flattenPath rt Unfix p = Inr ps"
proof -
  have "0 \<le> B"
    using assms(1) [rule_format, of 0] by linarith
  then show ?thesis
    unfolding flattenPath_def
    using flattenPath_loop_returns_bounded [OF assms(1-4) assms(5), of 0 0] by simp
qed


text \<open>
  The dasher returns when every dash length is positive. A cut moves the previous point
  along the segment by the rest of the current dash, so the length that remains ahead
  shrinks by at least the shortest dash length \<open>m\<close> at every cut that starts a dash
  afresh; a cut that ends a dash begun earlier can occur once between two such steps.
  The bound on the iterations counts the points ahead twice, the dash begun, and the
  length ahead in units of \<open>m\<close>.
\<close>

lemma Distance_nonneg: "0 \<le> Distance a b"
  by (simp add: Distance_def Let_def)

lemma Distance_Interpolate:
  assumes "t \<le> 1"
  shows "Distance (Interpolate a b t) b = (1 - t) * Distance a b"
proof -
  have x: "X (Interpolate a b t) - X b = (1 - t) * (X a - X b)"
    and y: "Y (Interpolate a b t) - Y b = (1 - t) * (Y a - Y b)"
    by (simp_all add: Interpolate_def NewVector_def Let_def algebra_simps)
  have "Distance (Interpolate a b t) b =
      sqrt ((1 - t)\<^sup>2 * ((X a - X b) * (X a - X b) + (Y a - Y b) * (Y a - Y b)))"
    unfolding Distance_def Let_def x y by (simp add: power2_eq_square algebra_simps)
  also have "\<dots> = \<bar>1 - t\<bar> * Distance a b"
    by (simp add: real_sqrt_mult Distance_def Let_def)
  finally show ?thesis
    using assms by simp
qed

lemma polyline_length_nonneg: "0 \<le> polyline_length ps"
  by (induction ps rule: polyline_length.induct) (simp_all add: Distance_nonneg)

lemma dashPath_loop_more_fuel:
  "dashPath_loop n ds path previous pathIndex dashIndex segmentLength segment result = Some v
   \<Longrightarrow> dashPath_loop (n + k) ds path previous pathIndex dashIndex segmentLength segment result
       = Some v"
proof (induction n arbitrary: previous pathIndex dashIndex segmentLength segment result)
  case 0
  then show ?case by simp
next
  case (Suc n)
  show ?case
  proof (cases "pathIndex < length path")
    case False
    then show ?thesis using Suc.prems by simp
  next
    case True
    show ?thesis
    proof (cases "Distance previous (path ! pathIndex) > ds ! dashIndex - segmentLength")
      case cut: True
      from Suc.prems True cut show ?thesis
        by (simp add: Let_def Suc.IH)
    next
      case adv: False
      from Suc.prems True adv show ?thesis
        by (simp add: Let_def Suc.IH)
    qed
  qed
qed


lemma floor_drop:
  fixes L L' m :: real
  assumes "0 < m" and "0 \<le> L'" and "L' \<le> L - m"
  shows "nat \<lfloor>L' / m\<rfloor> < nat \<lfloor>L / m\<rfloor>"
proof -
  have "(L' + m) / m \<le> L / m"
    using assms by (intro divide_right_mono) simp_all
  then have "L' / m + 1 \<le> L / m"
    using assms by (simp add: add_divide_distrib)
  then have "\<lfloor>L' / m + 1\<rfloor> \<le> \<lfloor>L / m\<rfloor>"
    by (rule floor_mono)
  then have "\<lfloor>L' / m\<rfloor> + 1 \<le> \<lfloor>L / m\<rfloor>"
    by simp
  moreover have "0 \<le> \<lfloor>L' / m\<rfloor>"
    using assms by simp
  ultimately show ?thesis by linarith
qed

lemma floor_keep:
  fixes L L' m :: real
  assumes "0 < m" and "L' \<le> L"
  shows "nat \<lfloor>L' / m\<rfloor> \<le> nat \<lfloor>L / m\<rfloor>"
  using assms by (intro nat_mono floor_mono) (simp add: divide_right_mono)

lemma dashPath_loop_returns:
  assumes m: "0 < m" and all: "\<forall>d\<in>set ds. m \<le> d"
  shows "dashIndex < length ds \<Longrightarrow> 0 \<le> segmentLength \<Longrightarrow> segmentLength \<le> ds ! dashIndex
    \<Longrightarrow> pathIndex \<le> length path
    \<Longrightarrow> 2 * (length path - pathIndex) + (if 0 < segmentLength then 1 else 0)
          + nat \<lfloor>polyline_length (previous # drop pathIndex path) / m\<rfloor> < fuel
    \<Longrightarrow> dashPath_loop fuel ds path previous pathIndex dashIndex segmentLength segment result
          \<noteq> None"
proof (induction fuel arbitrary: previous pathIndex dashIndex segmentLength segment result)
  case 0
  then show ?case by simp
next
  case (Suc fuel)
  show ?case
  proof (cases "pathIndex < length path")
    case False
    then show ?thesis by simp
  next
    case True
    define point where "point = path ! pathIndex"
    define d where "d = Distance previous point"
    define maxd where "maxd = ds ! dashIndex - segmentLength"
    define T where "T = polyline_length (point # drop (Suc pathIndex) path)"
    have dr: "drop pathIndex path = point # drop (Suc pathIndex) path"
      using True by (simp add: point_def Cons_nth_drop_Suc)
    have L: "polyline_length (previous # drop pathIndex path) = d + T"
      by (simp add: dr d_def T_def)
    have T0: "0 \<le> T" and d0: "0 \<le> d"
      by (simp_all add: T_def d_def polyline_length_nonneg Distance_nonneg)
    have maxd0: "0 \<le> maxd"
      using Suc.prems(3) by (simp add: maxd_def)
    have len: "0 < length ds"
      using Suc.prems(1) by (cases ds) simp_all
    show ?thesis
    proof (cases "d > maxd")
      case cut: True
      define p where "p = Interpolate previous point (maxd / d)"
      define dashIndex' where "dashIndex' = (dashIndex + 1) mod length ds"
      have dpos: "0 < d"
        using cut maxd0 by simp
      have "Distance p point = (1 - maxd / d) * d"
        unfolding p_def d_def using cut dpos
        by (intro Distance_Interpolate) (simp add: d_def)
      moreover have "(1 - maxd / d) * d = d - maxd"
        using dpos by (simp add: left_diff_distrib)
      ultimately have dp: "Distance p point = d - maxd"
        by simp
      have L': "polyline_length (p # drop pathIndex path) = (d - maxd) + T"
        by (simp add: dr dp T_def)
      have i': "dashIndex' < length ds"
        using len by (simp add: dashIndex'_def)
      then have pos': "0 \<le> (0::real)" "0 \<le> ds ! dashIndex'"
        using all m by (auto simp add: less_eq_real_def dest!: nth_mem [of dashIndex' ds] bspec)
      have drop0: "2 * (length path - pathIndex) + nat \<lfloor>(d - maxd + T) / m\<rfloor> < fuel"
      proof (cases "0 < segmentLength")
        case True
        have le: "nat \<lfloor>(d - maxd + T) / m\<rfloor> \<le> nat \<lfloor>(d + T) / m\<rfloor>"
          using m maxd0 by (intro floor_keep) simp_all
        have "2 * (length path - pathIndex) + 1 + nat \<lfloor>(d + T) / m\<rfloor> < Suc fuel"
          using Suc.prems(5) True by (simp add: L)
        with le show ?thesis by linarith
      next
        case False
        then have "segmentLength = 0"
          using Suc.prems(2) by simp
        then have "m \<le> maxd"
          using all Suc.prems(1) by (simp add: maxd_def)
        then have lt: "nat \<lfloor>(d - maxd + T) / m\<rfloor> < nat \<lfloor>(d + T) / m\<rfloor>"
          using m cut T0 by (intro floor_drop) simp_all
        have "2 * (length path - pathIndex) + nat \<lfloor>(d + T) / m\<rfloor> < Suc fuel"
          using Suc.prems(5) False by (simp add: L)
        with lt show ?thesis by linarith
      qed
      have drop: "2 * (length path - pathIndex) + (if 0 < (0::real) then 1 else 0)
          + nat \<lfloor>polyline_length (p # drop pathIndex path) / m\<rfloor> < fuel"
        using drop0 by (simp only: L' less_irrefl if_False add_0_right)
      have "dashPath_loop fuel ds path p pathIndex dashIndex' 0 [p] r \<noteq> None" for r
        by (rule Suc.IH [OF i' pos' Suc.prems(4) drop])
      then show ?thesis
        using True cut
        by (simp add: Let_def point_def [symmetric] d_def [symmetric] maxd_def [symmetric]
            p_def [symmetric] dashIndex'_def)
    next
      case adv: False
      have s0: "0 \<le> segmentLength + d" and s1: "segmentLength + d \<le> ds ! dashIndex"
        using adv d0 Suc.prems(2) by (simp_all add: maxd_def)
      have pi: "Suc pathIndex \<le> length path"
        using True by simp
      have le: "nat \<lfloor>T / m\<rfloor> \<le> nat \<lfloor>(d + T) / m\<rfloor>"
        using m d0 by (intro floor_keep) simp_all
      have "2 * (length path - pathIndex) + nat \<lfloor>(d + T) / m\<rfloor> < Suc fuel"
        using Suc.prems(5) by (simp add: L split: if_splits)
      moreover have "2 * (length path - Suc pathIndex) + 2 = 2 * (length path - pathIndex)"
        using True by simp
      moreover have "(if 0 < segmentLength + d then 1 else 0) \<le> (1::nat)"
        by simp
      ultimately have "2 * (length path - Suc pathIndex) + (if 0 < segmentLength + d then 1 else 0)
          + nat \<lfloor>T / m\<rfloor> < fuel"
        using le by linarith
      then have drop: "2 * (length path - Suc pathIndex) + (if 0 < segmentLength + d then 1 else 0)
          + nat \<lfloor>polyline_length (point # drop (Suc pathIndex) path) / m\<rfloor> < fuel"
        by (simp only: T_def)
      have "dashPath_loop fuel ds path point (Suc pathIndex) dashIndex (segmentLength + d)
          (segment @ [point]) result \<noteq> None"
        by (rule Suc.IH [OF Suc.prems(1) s0 s1 pi drop])
      then show ?thesis
        using True adv
        by (simp add: Let_def point_def [symmetric] d_def [symmetric] maxd_def [symmetric])
    qed
  qed
qed



lemma dashPath_paths_more_fuel:
  "dashPath_paths n ds paths result = Some v \<Longrightarrow> dashPath_paths (n + k) ds paths result = Some v"
proof (induction paths arbitrary: result)
  case Nil
  then show ?case by simp
next
  case (Cons path paths)
  show ?case
  proof (cases "length path < 2")
    case True
    then show ?thesis using Cons by simp
  next
    case False
    from Cons.prems False obtain st
      where st: "dashPath_loop n ds path (path ! 0) 1 0 0 [path ! 0] result = Some st"
      by (cases "dashPath_loop n ds path (path ! 0) 1 0 0 [path ! 0] result") simp_all
    have st': "dashPath_loop (n + k) ds path (path ! 0) 1 0 0 [path ! 0] result = Some st"
      by (rule dashPath_loop_more_fuel [OF st])
    from Cons.prems False show ?thesis
      unfolding dashPath_paths.simps st st' by (auto split: prod.splits intro: Cons.IH)
  qed
qed

lemma dashPath_paths_returns:
  assumes m: "0 < m" and all: "\<forall>d\<in>set ds. m \<le> d" and ne: "ds \<noteq> []"
  shows "\<exists>fuel v. dashPath_paths fuel ds paths result = Some v"
proof (induction paths arbitrary: result)
  case Nil
  show ?case by simp
next
  case (Cons path paths)
  show ?case
  proof (cases "length path < 2")
    case True
    then show ?thesis using Cons.IH [of result] by simp
  next
    case False
    define n1 where "n1 = Suc (2 * (length path - 1) + (if 0 < (0::real) then 1 else 0)
      + nat \<lfloor>polyline_length (path ! 0 # drop 1 path) / m\<rfloor>)"
    have i0: "0 < length ds"
      using ne by simp
    have "ds ! 0 \<in> set ds"
      using i0 by (rule nth_mem)
    then have "m \<le> ds ! 0"
      using all by blast
    then have d0: "(0::real) \<le> ds ! 0"
      using m by linarith
    have "dashPath_loop n1 ds path (path ! 0) 1 0 0 [path ! 0] result \<noteq> None"
      using False by (intro dashPath_loop_returns [OF m all i0 _ d0]) (simp_all add: n1_def)
    then obtain dashIndex segment result'
      where st: "dashPath_loop n1 ds path (path ! 0) 1 0 0 [path ! 0] result
        = Some (dashIndex, segment, result')"
      by (cases "dashPath_loop n1 ds path (path ! 0) 1 0 0 [path ! 0] result") auto
    define result'' where "result'' =
      (if dashIndex mod 2 = 0 \<and> length segment > 1 then result' @ [segment] else result')"
    from Cons.IH [of result''] obtain n2 v where n2: "dashPath_paths n2 ds paths result'' = Some v"
      by blast
    have a: "dashPath_loop (n1 + n2) ds path (path ! 0) 1 0 0 [path ! 0] result
        = Some (dashIndex, segment, result')"
      by (rule dashPath_loop_more_fuel [OF st])
    have b: "dashPath_paths (n1 + n2) ds paths result'' = Some v"
      using dashPath_paths_more_fuel [OF n2, of n1] by (simp add: add.commute)
    have "dashPath_paths (n1 + n2) ds (path # paths) result = Some v"
      using False b unfolding dashPath_paths.simps a result''_def by simp
    then show ?thesis by blast
  qed
qed

lemma dashPath_more_fuel:
  "dashPath n paths ds = Some v \<Longrightarrow> dashPath (n + k) paths ds = Some v"
  by (auto simp add: dashPath_def Let_def dashPath_paths_more_fuel split: if_splits)

lemma dashPath_returns:
  assumes "\<forall>d\<in>set ds. 0 < d"
  shows "\<exists>fuel v. dashPath fuel paths ds = Some v"
proof (cases "length ds = 0")
  case True
  then show ?thesis by (simp add: dashPath_def)
next
  case False
  define ds' where "ds' = (if length ds = 1 then ds @ [ds ! 0] else ds)"
  have sub: "set ds' = set ds"
    using False by (cases ds) (auto simp add: ds'_def)
  have ne: "ds' \<noteq> []"
    using False by (auto simp add: ds'_def)
  have fin: "finite (set ds')" "set ds' \<noteq> {}"
    using ne by simp_all
  have "\<forall>d\<in>set ds'. 0 < d"
    using assms sub by simp
  then have m: "0 < Min (set ds')"
    by (simp only: Min_gr_iff [OF fin])
  have all: "\<forall>d\<in>set ds'. Min (set ds') \<le> d"
    by simp
  from dashPath_paths_returns [OF m all ne, of paths "[]"] show ?thesis
    using False by (simp add: dashPath_def ds'_def Let_def)
qed

lemma stroke_returns:
  assumes "grid_path (strokePath c)" and "\<forall>d\<in>set (dashes c). 0 < d"
  shows "\<exists>fuel. (\<exists>r'. stroke fuel rt Unfix Fix c r painter = Some (Inr r'))
    \<or> stroke fuel rt Unfix Fix c r painter = Some (Inl (Panic ''makeslice: len out of range''))"
proof -
  from flattenPath_returns [OF assms(1), of rt Unfix]
  show ?thesis
  proof
    assume "\<exists>ps. flattenPath rt Unfix (strokePath c) = Inr ps"
    then obtain ps where ps: "flattenPath rt Unfix (strokePath c) = Inr ps"
      by blast
    from dashPath_returns [OF assms(2), of ps]
    obtain fuel v where v: "dashPath fuel ps (dashes c) = Some v"
      by blast
    show ?thesis
      by (intro exI [of _ fuel]) (simp add: stroke_def Let_def ps v)
  next
    assume "flattenPath rt Unfix (strokePath c) = Inl (Panic ''makeslice: len out of range'')"
    then show ?thesis
      by (simp add: stroke_def Let_def)
  qed
qed

lemma stroke_returns_bounded:
  assumes "grid_path (strokePath c)" and "\<forall>d\<in>set (dashes c). 0 < d"
    and "\<forall>w. \<bar>Unfix w\<bar> \<le> B"
    and "4 \<le> max_len rt" "8 * B + 1 \<le> real (max_len rt)" "8 * B + 1 \<le> 2 ^ 63"
  shows "\<exists>fuel r'. stroke fuel rt Unfix Fix c r painter = Some (Inr r')"
proof -
  from flattenPath_returns_bounded [OF assms(3-6) assms(1)]
  obtain ps where ps: "flattenPath rt Unfix (strokePath c) = Inr ps"
    by blast
  from dashPath_returns [OF assms(2), of ps]
  obtain fuel v where v: "dashPath fuel ps (dashes c) = Some v"
    by blast
  show ?thesis
    by (intro exI [of _ fuel]) (simp add: stroke_def Let_def ps v)
qed

lemma stroke_more_fuel:
  "stroke n rt Unfix Fix c r painter = Some v \<Longrightarrow> stroke (n + k) rt Unfix Fix c r painter = Some v"
  by (auto simp add: stroke_def Let_def dashPath_more_fuel split: if_splits sum.splits option.splits)


lemma canvas_line_reached:
  "and_then (MoveTo canvas_2x2 0 0) (\<lambda>c. and_then (LineTo c 16 0)
     (\<lambda>c. Inr (SetFillRule (SetDash c [5, 3]) FillRuleEvenOdd))) = Inr canvas_line"
  by (simp add: and_then_def MoveTo_def LineTo_def SetDash_def SetFillRule_def canvas_line_def
      canvas_2x2_def NewCanvasForRGBA_def Let_def Canvas_TransformPoint_def TransformPoint_def
      Identity_def Start_def Add1_def Fixed_truncates NewVector_def float_to_int_def)

text \<open>
  Claim C6. Whenever \<open>stroke\<close> reaches the rasterizer, it rasterizes with the nonzero
  winding rule, and the fill rule of the canvas has no influence on \<open>stroke\<close> at all. On a
  well-formed stroke path with positive dash lengths, given enough iterations for the
  dasher, \<open>stroke\<close> does reach the rasterizer unless \<^verbatim>\<open>make\<close> panics on a curve of the
  path; and it reaches it without fail when the runtime can allocate the longest curve
  between points that \<^verbatim>\<open>Unfix\<close> can give (coordinates within \<open>B\<close> of zero, \<open>8 B + 1\<close> points).
  \<open>fill\<close> rasterizes with the nonzero winding rule exactly when the fill rule is
  \<open>FillRuleWinding\<close> (with the even-odd rule otherwise), and returns on every canvas whose
  cursor pointers are set.
\<close>

theorem stroke_nonzero_fill_by_rule:
  "(\<forall>r'. stroke fuel rt Unfix Fix c r painter = Some (Inr r') \<longrightarrow>
        UseNonZeroWinding r' \<and> fst (last (rasterized r')))
   \<and> stroke fuel rt Unfix Fix (c\<lparr>fillRule := fr\<rparr>) r painter = stroke fuel rt Unfix Fix c r painter
   \<and> (grid_path (strokePath c) \<and> (\<forall>d\<in>set (dashes c). 0 < d) \<longrightarrow>
        (\<exists>n. \<forall>k. (\<exists>r'. stroke (n + k) rt Unfix Fix c r painter = Some (Inr r'))
           \<or> stroke (n + k) rt Unfix Fix c r painter
               = Some (Inl (Panic ''makeslice: len out of range''))))
   \<and> (grid_path (strokePath c) \<and> (\<forall>d\<in>set (dashes c). 0 < d)
        \<and> (\<forall>w. \<bar>Unfix w\<bar> \<le> B) \<and> 4 \<le> max_len rt \<and> 8 * B + 1 \<le> real (max_len rt)
        \<and> 8 * B + 1 \<le> 2 ^ 63 \<longrightarrow>
        (\<exists>n. \<forall>k. \<exists>r'. stroke (n + k) rt Unfix Fix c r painter = Some (Inr r')))
   \<and> (\<forall>r'. fill c r painter = Inr r' \<longrightarrow>
        UseNonZeroWinding r' = (fillRule c = FillRuleWinding)
        \<and> fst (last (rasterized r')) = (fillRule c = FillRuleWinding))
   \<and> (cursor_ok c \<longrightarrow> (\<exists>r'. fill c r painter = Inr r'))"
proof (intro conjI allI impI)
  fix r'
  assume "stroke fuel rt Unfix Fix c r painter = Some (Inr r')"
  from stroke_result [OF this] show "UseNonZeroWinding r'" and "fst (last (rasterized r'))"
    by auto
next
  show "stroke fuel rt Unfix Fix (c\<lparr>fillRule := fr\<rparr>) r painter = stroke fuel rt Unfix Fix c r painter"
    by (rule stroke_ignores_fillRule)
next
  assume "grid_path (strokePath c) \<and> (\<forall>d\<in>set (dashes c). 0 < d)"
  then obtain n where "(\<exists>r'. stroke n rt Unfix Fix c r painter = Some (Inr r'))
      \<or> stroke n rt Unfix Fix c r painter = Some (Inl (Panic ''makeslice: len out of range''))"
    using stroke_returns [of c rt Unfix Fix r painter] by blast
  then have "(\<exists>r'. stroke (n + k) rt Unfix Fix c r painter = Some (Inr r'))
      \<or> stroke (n + k) rt Unfix Fix c r painter
          = Some (Inl (Panic ''makeslice: len out of range''))" for k
    using stroke_more_fuel [of n rt Unfix Fix c r painter _ k] by blast
  then show "\<exists>n. \<forall>k. (\<exists>r'. stroke (n + k) rt Unfix Fix c r painter = Some (Inr r'))
           \<or> stroke (n + k) rt Unfix Fix c r painter
               = Some (Inl (Panic ''makeslice: len out of range''))"
    by blast
next
  assume "grid_path (strokePath c) \<and> (\<forall>d\<in>set (dashes c). 0 < d)
        \<and> (\<forall>w. \<bar>Unfix w\<bar> \<le> B) \<and> 4 \<le> max_len rt \<and> 8 * B + 1 \<le> real (max_len rt)
        \<and> 8 * B + 1 \<le> 2 ^ 63"
  then obtain n r' where "stroke n rt Unfix Fix c r painter = Some (Inr r')"
    using stroke_returns_bounded [of c Unfix B rt Fix r painter] by blast
  then have "\<exists>r'. stroke (n + k) rt Unfix Fix c r painter = Some (Inr r')" for k
    using stroke_more_fuel by blast
  then show "\<exists>n. \<forall>k. \<exists>r'. stroke (n + k) rt Unfix Fix c r painter = Some (Inr r')"
    by blast
next
  fix r'
  assume "fill c r painter = Inr r'"
  from fill_result [OF this]
  show "UseNonZeroWinding r' = (fillRule c = FillRuleWinding)"
    and "fst (last (rasterized r')) = (fillRule c = FillRuleWinding)"
    by auto
next
  assume "cursor_ok c"
  then show "\<exists>r'. fill c r painter = Inr r'"
    by (rule fill_returns)
qed

theorem stroke_nonzero_fill_by_rule_witness:
  "fillRule canvas_line = FillRuleEvenOdd
   \<and> (\<exists>n r'. stroke n runtime_amd64 (\<lambda>w. real_of_int (sint w) / 64) (\<lambda>x. word_of_int \<lfloor>x * 64\<rfloor>)
            canvas_line new_rasterizer AlphaOverPainter = Some (Inr r')
          \<and> UseNonZeroWinding r' \<and> fst (last (rasterized r')))
   \<and> (\<exists>r'. fill canvas_line new_rasterizer AlphaOverPainter = Inr r'
          \<and> \<not> UseNonZeroWinding r' \<and> \<not> fst (last (rasterized r')))"
proof -
  note t = stroke_nonzero_fill_by_rule [where c = canvas_line and r = new_rasterizer
      and painter = AlphaOverPainter and Unfix = "\<lambda>w. real_of_int (sint w) / 64"
      and Fix = "\<lambda>x. word_of_int \<lfloor>x * 64\<rfloor>" and rt = runtime_amd64 and B = "2 ^ 25"]
  have f: "fillRule canvas_line = FillRuleEvenOdd" "fillRule canvas_line \<noteq> FillRuleWinding"
    by (simp_all add: canvas_line_def FillRuleEvenOdd_def FillRuleWinding_def)
  have "grid_path ([0, 0, 0, 0] @ [1, 1024, 0, 1])"
    by (intro grid_path_append grid_path_line) (simp_all add: on_grid_def)
  then have g: "grid_path (strokePath canvas_line)"
    by (simp add: canvas_line_def)
  have d: "\<forall>d\<in>set (dashes canvas_line). 0 < d"
    by (simp add: canvas_line_def)
  have k: "cursor_ok canvas_line"
    by (simp add: cursor_ok_def canvas_line_def)
  have u: "\<bar>real_of_int (sint w) / 64\<bar> \<le> 2 ^ 25" for w :: "32 word"
  proof -
    have "- (2 ^ 31) \<le> sint w" "sint w < 2 ^ 31"
      using sint_ge [of w] sint_lt [of w] by simp_all
    then have "real_of_int (- (2 ^ 31)) \<le> real_of_int (sint w)"
      "real_of_int (sint w) < real_of_int (2 ^ 31)"
      by (simp_all only: of_int_le_iff of_int_less_iff)
    then show ?thesis
      by (simp add: abs_le_iff field_simps)
  qed
  have m: "4 \<le> max_len runtime_amd64" "8 * 2 ^ 25 + 1 \<le> real (max_len runtime_amd64)"
    "8 * 2 ^ 25 + 1 \<le> (2 ^ 63 :: real)"
    by (simp_all add: runtime_amd64_def)
  from t [of 0] g d u m obtain n r1 where
    s: "stroke (n + 0) runtime_amd64 (\<lambda>w. real_of_int (sint w) / 64) (\<lambda>x. word_of_int \<lfloor>x * 64\<rfloor>)
         canvas_line new_rasterizer AlphaOverPainter = Some (Inr r1)"
    by blast
  from t [of "n + 0"] s have s': "UseNonZeroWinding r1 \<and> fst (last (rasterized r1))"
    by blast
  from t [of 0] k obtain r2 where r2: "fill canvas_line new_rasterizer AlphaOverPainter = Inr r2"
    by blast
  from t [of 0] r2 f have r2': "\<not> UseNonZeroWinding r2 \<and> \<not> fst (last (rasterized r2))"
    by blast
  show ?thesis
    using f(1) s s' r2 r2' by blast
qed

section \<open>A dash pattern on which the dasher never returns\<close>

text \<open>
  A pattern of zeros shows why the dasher runs on fuel: on a segment of positive length
  every iteration cuts at the previous point itself, and no amount of fuel is enough.
\<close>

lemma Interpolate_zero: "Interpolate v w 0 = v"
  by (simp add: Interpolate_def NewVector_def)

lemma dashPath_loop_zero_pattern:
  assumes "pathIndex < length path" and "0 < Distance previous (path ! pathIndex)"
  shows "dashIndex < 2 \<Longrightarrow>
    dashPath_loop fuel [0, 0] path previous pathIndex dashIndex 0 segment result = None"
proof (induction fuel arbitrary: dashIndex segment result)
  case 0
  show ?case by simp
next
  case (Suc fuel)
  have z: "[0, 0::real] ! dashIndex = 0"
    using Suc.prems by (cases dashIndex) simp_all
  have "Suc dashIndex mod Suc (Suc 0) < 2"
    using mod_less_divisor [of "Suc (Suc 0)" "Suc dashIndex"] by (simp only: numeral_2_eq_2)
  note ih = Suc.IH [OF this]
  show ?case
    using assms by (simp add: Let_def z Interpolate_zero ih)
qed

lemma dashPath_zero_pattern:
  "dashPath fuel [[NewVector 0 0, NewVector 16 0]] [0] = None"
  using dashPath_loop_zero_pattern [of 1 "[NewVector 0 0, NewVector 16 0]" "NewVector 0 0" 0 fuel]
  by (simp add: dashPath_def Distance_on_axis)

section \<open>The path invariants across the state stack\<close>

text \<open>
  \<open>Pop\<close> keeps the path programs and the cursor of the canvas, so it keeps the two
  invariants of the path programs, whatever the popped entry points to.
\<close>

lemma Pop_keeps_invariants:
  assumes "Pop h c = Inr h'" and "h c = Some before"
    and "grid_canvas before" and "cursor_ok before"
  shows "\<exists>after. h' c = Some after \<and> grid_canvas after \<and> cursor_ok after"
proof -
  from assms(1,2) obtain saved where "h' = h(c \<mapsto> saved\<lparr>mask_alpha := mask_alpha before,
      strokePath := strokePath before, fillPath := fillPath before, start := start before,
      current := current before, hasCurrent := hasCurrent before\<rparr>)"
    by (auto simp add: Pop_def Let_def split: if_splits option.splits)
  then show ?thesis
    using assms(3,4) by (simp add: grid_canvas_def cursor_ok_def)
qed

end
